theory Spec2Isabelle
  imports Main "HOL-Library.AList" "HOL-Library.Sublist"
begin

text \<open>
  The real-time layer of the chat backend: the socket.io service
  (\<open>services/socketService.js\<close>) with the \<open>Group\<close> and \<open>Message\<close> models it
  uses. A listener is modelled as a function from the state before the event to the state
  after it; the state carries the trace of store writes and emissions the listener made,
  in order. In \<open>run\<close> the listeners run one after the other, each to its end; the
  join listener is also given await by await, to run two of them interleaved.
\<close>

section \<open>Data model\<close>

text \<open>
  Identifiers (Mongo ObjectIds rendered as strings, socket.io socket ids) are strings.
  \<open>member.equals(userId)\<close> on ObjectIds is equality of the identifiers.
\<close>

type_synonym uid = string
type_synonym gid = string
type_synonym sid = string

text \<open>The fields of \<open>socket.user\<close> the socket service reads.\<close>

record user =
  user_id :: uid
  user_name :: string
  firstName :: string
  email :: string

text \<open>\<open>groupSchema\<close>: name, description (optional), creator, members, createdAt.\<close>

record group =
  name :: string
  description :: "string option"
  creator :: uid
  members :: "uid list"
  createdAt :: nat

text \<open>
  \<open>messageSchema\<close>: sender, recipient or group, content, read, createdAt; the
  document id is the one the driver generated when the document was constructed.
\<close>

record message =
  msg_id :: nat
  sender :: uid
  recipient :: "uid option"
  msg_group :: "gid option"
  content :: string
  read :: bool
  msg_createdAt :: nat

subsection \<open>Group methods\<close>

text \<open>\<open>this.members.some(member => member.equals(userId))\<close>\<close>

definition isMember :: "group \<Rightarrow> uid \<Rightarrow> bool" where
  "isMember g userId = list_ex (\<lambda>member. member = userId) (members g)"

text \<open>
  \<open>addMember\<close> and \<open>removeMember\<close> change the document in memory and then return
  \<open>this.save()\<close>; the functions below are the in-memory change, the save is
  \<open>save_group\<close> in the handlers that call them.
\<close>

definition addMember :: "group \<Rightarrow> uid \<Rightarrow> group" where
  "addMember g userId =
     (if \<not> isMember g userId then g\<lparr>members := members g @ [userId]\<rparr> else g)"

definition removeMember :: "group \<Rightarrow> uid \<Rightarrow> group" where
  "removeMember g userId =
     g\<lparr>members := filter (\<lambda>member. \<not> member = userId) (members g)\<rparr>"

section \<open>The socket service\<close>

subsection \<open>Rooms, outbound events and effects\<close>

text \<open>
  The socket.io rooms the service uses are \<open>user:<id>\<close> and \<open>group:<id>\<close>; the two
  prefixes keep them apart, as the two constructors do.
\<close>

datatype room = UserRoom uid | GroupRoom gid

datatype status = Online | Offline

text \<open>
  The events the service emits, with their bodies. Every error is the event \<open>error\<close>
  with a message; the code attaches no error code. A populated reference is the user
  that was found, or nothing.
\<close>

datatype payload =
    Error string
  | UserStatus uid status
  | DirectMessage message "user option" "user option"
  | GroupMessage message "user option"
  | MessageSent nat
  | MemberJoined gid uid user
  | MemberLeft gid uid
  | GroupJoined gid string
  | GroupLeft gid string
  | GroupDeleted gid
  | Typing uid "bool option"
  | GroupTyping uid gid string "bool option"

text \<open>
  Where an emission goes: \<open>socket.emit\<close>, \<open>io.to(room).emit\<close>,
  \<open>socket.to(room).emit\<close> (the room without the emitting socket) and \<open>io.emit\<close>.
\<close>

datatype target = ToSocket sid | ToRoom room | ToRoomExcept room sid | ToAll

text \<open>
  What a handler does to the outside, in the order it does it: store writes and
  emissions, the latter with the sockets that received them.
\<close>

datatype action =
    SavedMessage message
  | SavedGroup gid group
  | DeletedGroup gid
  | Emit target payload "sid list"

record socket =
  socket_id :: sid
  socket_user :: user
  rooms :: "room set"

text \<open>
  The state a handler runs in: the service's \<open>userSockets\<close> map (one socket id per
  user id), the server's connected sockets with their rooms, the three collections, and
  the trace of actions so far.
\<close>

record state =
  userSockets :: "uid \<rightharpoonup> sid"
  sockets :: "socket list"
  users :: "uid \<rightharpoonup> user"
  groups :: "(gid \<times> group) list"
  messages :: "message list"
  trace :: "action list"

text \<open>
  What the handler cannot decide: the clock, the id the driver gives a new document, and
  which of the awaited store calls reject (each \<open>await\<close> sits in a \<open>try\<close>).
\<close>

record env =
  now :: nat
  fresh_id :: nat
  find_rejects :: bool
  save_rejects :: bool
  populate_rejects :: bool
  delete_rejects :: bool

datatype 'a promise = Rejected | Resolved 'a

subsection \<open>socket.io\<close>

definition in_room :: "room \<Rightarrow> state \<Rightarrow> sid list" where
  "in_room r s = map socket_id (filter (\<lambda>k. r \<in> rooms k) (sockets s))"

fun recipients :: "state \<Rightarrow> target \<Rightarrow> sid list" where
  "recipients s (ToSocket sk) = [sk]"
| "recipients s (ToRoom r) = in_room r s"
| "recipients s (ToRoomExcept r sk) = filter (\<lambda>j. j \<noteq> sk) (in_room r s)"
| "recipients s ToAll = map socket_id (sockets s)"

definition emit :: "target \<Rightarrow> payload \<Rightarrow> state \<Rightarrow> state" where
  "emit t p s = s\<lparr>trace := trace s @ [Emit t p (recipients s t)]\<rparr>"

abbreviation socket_emit :: "sid \<Rightarrow> payload \<Rightarrow> state \<Rightarrow> state" where
  "socket_emit sk \<equiv> emit (ToSocket sk)"

abbreviation io_emit :: "payload \<Rightarrow> state \<Rightarrow> state" where
  "io_emit \<equiv> emit ToAll"

abbreviation io_to_emit :: "room \<Rightarrow> payload \<Rightarrow> state \<Rightarrow> state" where
  "io_to_emit r \<equiv> emit (ToRoom r)"

abbreviation socket_to_emit :: "sid \<Rightarrow> room \<Rightarrow> payload \<Rightarrow> state \<Rightarrow> state" where
  "socket_to_emit sk r \<equiv> emit (ToRoomExcept r sk)"

definition socket_join :: "sid \<Rightarrow> room \<Rightarrow> state \<Rightarrow> state" where
  "socket_join sk r s =
     s\<lparr>sockets := map (\<lambda>k. if socket_id k = sk then k\<lparr>rooms := insert r (rooms k)\<rparr> else k)
                      (sockets s)\<rparr>"

definition socket_leave :: "sid \<Rightarrow> room \<Rightarrow> state \<Rightarrow> state" where
  "socket_leave sk r s =
     s\<lparr>sockets := map (\<lambda>k. if socket_id k = sk then k\<lparr>rooms := rooms k - {r}\<rparr> else k)
                      (sockets s)\<rparr>"

subsection \<open>The store\<close>

text \<open>
  Ids are names for well-formed ObjectIds in the spelling the store holds them in. A field
  of an event's body that names a user, a group or a content is absent or a string, and
  \<open>!field\<close> holds of an absent field and of the empty string.
\<close>

definition present :: "string option \<Rightarrow> string option" where
  "present field = (case field of None \<Rightarrow> None | Some v \<Rightarrow> if v = [] then None else Some v)"

text \<open>
  The schema's \<open>trim: true\<close> on the content is \<open>String.prototype.trim\<close>, which strips
  white space and line terminators from both ends: U+0009 to U+000D, U+0020, U+00A0,
  U+1680, U+2000 to U+200A, U+2028, U+2029, U+202F, U+205F, U+3000 and U+FEFF. A string
  is its UTF-8 bytes, so each of them is one to three bytes.
\<close>

definition white_space :: "string list" where
  "white_space =
     [[CHR 0x09], [CHR 0x0A], [CHR 0x0B], [CHR 0x0C], [CHR 0x0D], [CHR 0x20],
      [CHR 0xC2, CHR 0xA0], [CHR 0xE1, CHR 0x9A, CHR 0x80],
      [CHR 0xE2, CHR 0x80, CHR 0x80], [CHR 0xE2, CHR 0x80, CHR 0x81],
      [CHR 0xE2, CHR 0x80, CHR 0x82], [CHR 0xE2, CHR 0x80, CHR 0x83],
      [CHR 0xE2, CHR 0x80, CHR 0x84], [CHR 0xE2, CHR 0x80, CHR 0x85],
      [CHR 0xE2, CHR 0x80, CHR 0x86], [CHR 0xE2, CHR 0x80, CHR 0x87],
      [CHR 0xE2, CHR 0x80, CHR 0x88], [CHR 0xE2, CHR 0x80, CHR 0x89],
      [CHR 0xE2, CHR 0x80, CHR 0x8A], [CHR 0xE2, CHR 0x80, CHR 0xA8],
      [CHR 0xE2, CHR 0x80, CHR 0xA9], [CHR 0xE2, CHR 0x80, CHR 0xAF],
      [CHR 0xE2, CHR 0x81, CHR 0x9F], [CHR 0xE3, CHR 0x80, CHR 0x80],
      [CHR 0xEF, CHR 0xBB, CHR 0xBF]]"

text \<open>
  Strip the given byte sequences from the front of a string, as long as one of them is
  there; the second argument bounds the number of rounds (the string itself is enough).
\<close>

fun strip :: "string list \<Rightarrow> string \<Rightarrow> string \<Rightarrow> string" where
  "strip ws [] v = v"
| "strip ws (f # fuel) v =
     (case find (\<lambda>w. prefix w v) ws of
        None \<Rightarrow> v
      | Some w \<Rightarrow> strip ws fuel (drop (length w) v))"

definition trim :: "string \<Rightarrow> string" where
  "trim v =
     (let front = strip white_space v v
      in rev (strip (map rev white_space) front (rev front)))"

text \<open>\<open>new Message({sender, recipient | group, content})\<close> with the schema's defaults.\<close>

definition new_message :: "env \<Rightarrow> uid \<Rightarrow> uid option \<Rightarrow> gid option \<Rightarrow> string \<Rightarrow> message" where
  "new_message e senderId recipientId groupId content' =
     \<lparr>msg_id = fresh_id e, sender = senderId, recipient = recipientId, msg_group = groupId,
      content = trim content', read = False, msg_createdAt = now e\<rparr>"

text \<open>
  The schema's validation: sender and content are required, and the pre-validate hook
  refuses a message with both a recipient and a group, or with neither.
\<close>

definition message_valid :: "message \<Rightarrow> bool" where
  "message_valid m \<longleftrightarrow>
     sender m \<noteq> [] \<and> content m \<noteq> [] \<and>
     \<not> ((recipient m \<noteq> None \<and> msg_group m \<noteq> None) \<or> (recipient m = None \<and> msg_group m = None))"

definition save_message :: "env \<Rightarrow> message \<Rightarrow> state \<Rightarrow> state promise" where
  "save_message e m s =
     (if save_rejects e \<or> \<not> message_valid m then Rejected
      else Resolved (s\<lparr>messages := messages s @ [m], trace := trace s @ [SavedMessage m]\<rparr>))"

definition populate :: "env \<Rightarrow> state \<Rightarrow> uid \<Rightarrow> user option promise" where
  "populate e s userId = (if populate_rejects e then Rejected else Resolved (users s userId))"

definition findById :: "env \<Rightarrow> state \<Rightarrow> gid \<Rightarrow> group option promise" where
  "findById e s groupId = (if find_rejects e then Rejected else Resolved (map_of (groups s) groupId))"

definition save_group :: "env \<Rightarrow> gid \<Rightarrow> group \<Rightarrow> state \<Rightarrow> state promise" where
  "save_group e groupId g s =
     (if save_rejects e then Rejected
      else Resolved (s\<lparr>groups := AList.update groupId g (groups s),
                       trace := trace s @ [SavedGroup groupId g]\<rparr>))"

definition findByIdAndDelete :: "env \<Rightarrow> gid \<Rightarrow> state \<Rightarrow> state promise" where
  "findByIdAndDelete e groupId s =
     (if delete_rejects e then Rejected
      else Resolved (s\<lparr>groups := AList.delete groupId (groups s),
                       trace := trace s @ [DeletedGroup groupId]\<rparr>))"

subsection \<open>The handlers\<close>

text \<open>
  Each handler is the body of one \<open>socket.on\<close> listener, run from its first line to its
  last, for an event whose body is an object (its fields are the handler's arguments; an
  event without a body is \<open>bodiless\<close> below); \<open>sk\<close> and \<open>u\<close> are the listener's
  \<open>socket.id\<close> and \<open>socket.user\<close>, and \<open>userId\<close> is \<open>socket.user._id.toString()\<close>.
\<close>

definition direct_message ::
  "env \<Rightarrow> sid \<Rightarrow> user \<Rightarrow> string option \<Rightarrow> string option \<Rightarrow> state \<Rightarrow> state" where
  "direct_message e sk u recipientId content' s =
     (let userId = user_id u in
      case (present recipientId, present content') of
        (Some rid, Some c) \<Rightarrow>
          (let message = new_message e userId (Some rid) None c in
           case save_message e message s of
             Rejected \<Rightarrow> socket_emit sk (Error ''Failed to send message'') s
           | Resolved s1 \<Rightarrow>
               (case (populate e s1 userId, populate e s1 rid) of
                  (Resolved su, Resolved ru) \<Rightarrow>
                    (let s2 = (if userSockets s1 rid \<noteq> None
                               then io_to_emit (UserRoom rid) (DirectMessage message su ru) s1
                               else s1)
                     in socket_emit sk (MessageSent (msg_id message)) s2)
                | _ \<Rightarrow> socket_emit sk (Error ''Failed to send message'') s1))
      | _ \<Rightarrow> socket_emit sk (Error ''Recipient ID and content are required'') s)"

definition group_message ::
  "env \<Rightarrow> sid \<Rightarrow> user \<Rightarrow> string option \<Rightarrow> string option \<Rightarrow> state \<Rightarrow> state" where
  "group_message e sk u groupId content' s =
     (let userId = user_id u in
      case (present groupId, present content') of
        (Some gi, Some c) \<Rightarrow>
          (case findById e s gi of
             Rejected \<Rightarrow> socket_emit sk (Error ''Failed to send group message'') s
           | Resolved None \<Rightarrow> socket_emit sk (Error ''Group not found'') s
           | Resolved (Some g) \<Rightarrow>
               if \<not> isMember g userId
               then socket_emit sk (Error ''You are not a member of this group'') s
               else
                 (let message = new_message e userId None (Some gi) c in
                  case save_message e message s of
                    Rejected \<Rightarrow> socket_emit sk (Error ''Failed to send group message'') s
                  | Resolved s1 \<Rightarrow>
                      (case populate e s1 userId of
                         Rejected \<Rightarrow> socket_emit sk (Error ''Failed to send group message'') s1
                       | Resolved su \<Rightarrow>
                           socket_emit sk (MessageSent (msg_id message))
                             (io_to_emit (GroupRoom gi) (GroupMessage message su) s1))))
      | _ \<Rightarrow> socket_emit sk (Error ''Group ID and content are required'') s)"

definition join_group :: "env \<Rightarrow> sid \<Rightarrow> user \<Rightarrow> string option \<Rightarrow> state \<Rightarrow> state" where
  "join_group e sk u groupId s =
     (let userId = user_id u in
      case present groupId of
        None \<Rightarrow> socket_emit sk (Error ''Group ID is required'') s
      | Some gi \<Rightarrow>
          (case findById e s gi of
             Rejected \<Rightarrow> socket_emit sk (Error ''Failed to join group'') s
           | Resolved None \<Rightarrow> socket_emit sk (Error ''Group not found'') s
           | Resolved (Some g) \<Rightarrow>
               if \<not> isMember g userId
               then
                 (case save_group e gi (addMember g userId) s of
                    Rejected \<Rightarrow> socket_emit sk (Error ''Failed to join group'') s
                  | Resolved s1 \<Rightarrow>
                      socket_emit sk (GroupJoined gi (name g))
                        (io_to_emit (GroupRoom gi) (MemberJoined gi userId u)
                          (socket_join sk (GroupRoom gi) s1)))
               else socket_emit sk (Error ''You are already a member of this group'') s))"

definition leave_group :: "env \<Rightarrow> sid \<Rightarrow> user \<Rightarrow> string option \<Rightarrow> state \<Rightarrow> state" where
  "leave_group e sk u groupId s =
     (let userId = user_id u in
      case present groupId of
        None \<Rightarrow> socket_emit sk (Error ''Group ID is required'') s
      | Some gi \<Rightarrow>
          (case findById e s gi of
             Rejected \<Rightarrow> socket_emit sk (Error ''Failed to leave group'') s
           | Resolved None \<Rightarrow> socket_emit sk (Error ''Group not found'') s
           | Resolved (Some g) \<Rightarrow>
               if \<not> isMember g userId
               then socket_emit sk (Error ''You are not a member of this group'') s
               else if creator g = userId \<and> length (members g) > 1
               then socket_emit sk
                      (Error ''Group creator cannot leave. Transfer ownership or delete the group.'') s
               else
                 (let g' = removeMember g userId in
                  case save_group e gi g' s of
                    Rejected \<Rightarrow> socket_emit sk (Error ''Failed to leave group'') s
                  | Resolved s1 \<Rightarrow>
                      (let s2 = socket_leave sk (GroupRoom gi) s1 in
                       if length (members g') = 0
                       then
                         (case findByIdAndDelete e gi s2 of
                            Rejected \<Rightarrow> socket_emit sk (Error ''Failed to leave group'') s2
                          | Resolved s3 \<Rightarrow>
                              socket_emit sk (GroupLeft gi (name g'))
                                (io_emit (GroupDeleted gi) s3))
                       else
                         socket_emit sk (GroupLeft gi (name g'))
                           (io_to_emit (GroupRoom gi) (MemberLeft gi userId) s2)))))"

definition typing :: "sid \<Rightarrow> user \<Rightarrow> string option \<Rightarrow> bool option \<Rightarrow> state \<Rightarrow> state" where
  "typing sk u recipientId isTyping s =
     (case present recipientId of
        Some rid \<Rightarrow> io_to_emit (UserRoom rid) (Typing (user_id u) isTyping) s
      | None \<Rightarrow> s)"

definition group_typing :: "sid \<Rightarrow> user \<Rightarrow> string option \<Rightarrow> bool option \<Rightarrow> state \<Rightarrow> state" where
  "group_typing sk u groupId isTyping s =
     (case present groupId of
        Some gi \<Rightarrow>
          socket_to_emit sk (GroupRoom gi) (GroupTyping (user_id u) gi (firstName u) isTyping) s
      | None \<Rightarrow> s)"

text \<open>
  When the \<open>disconnect\<close> listener runs, socket.io has already taken the socket out of
  its rooms and out of the connected sockets.
\<close>

definition disconnect :: "sid \<Rightarrow> user \<Rightarrow> state \<Rightarrow> state" where
  "disconnect sk u s =
     (let userId = user_id u;
          s1 = s\<lparr>sockets := filter (\<lambda>k. socket_id k \<noteq> sk) (sockets s)\<rparr>;
          s2 = s1\<lparr>userSockets := (userSockets s1)(userId := None)\<rparr>
      in io_emit (UserStatus userId Offline) s2)"

text \<open>\<open>Group.find({ members: userId })\<close>, then one \<open>socket.join\<close> per group found.\<close>

definition joinUserGroups :: "env \<Rightarrow> sid \<Rightarrow> user \<Rightarrow> state \<Rightarrow> state" where
  "joinUserGroups e sk u s =
     (if find_rejects e then s
      else fold (\<lambda>gi. socket_join sk (GroupRoom gi))
             (map fst (filter (\<lambda>(gi, g). user_id u \<in> set (members g)) (groups s))) s)"

text \<open>
  The \<open>connection\<close> listener, for a socket the authentication middleware has bound to
  \<open>u\<close>. \<open>joinUserGroups\<close> is not awaited: its joins happen once \<open>Group.find\<close> has
  answered, after the \<open>online\<close> broadcast.
\<close>

definition connection :: "env \<Rightarrow> sid \<Rightarrow> user \<Rightarrow> state \<Rightarrow> state" where
  "connection e sk u s =
     (let userId = user_id u;
          s1 = s\<lparr>sockets := sockets s @ [\<lparr>socket_id = sk, socket_user = u, rooms = {}\<rparr>]\<rparr>;
          s2 = s1\<lparr>userSockets := (userSockets s1)(userId \<mapsto> sk)\<rparr>;
          s3 = socket_join sk (UserRoom userId) s2;
          s4 = io_emit (UserStatus userId Online) s3
      in joinUserGroups e sk u s4)"

subsection \<open>Dispatch\<close>

datatype event =
    EvDirectMessage "string option" "string option"
  | EvGroupMessage "string option" "string option"
  | EvJoinGroup "string option"
  | EvLeaveGroup "string option"
  | EvTyping "string option" "bool option"
  | EvGroupTyping "string option" "bool option"
  | EvDisconnect

text \<open>An event reaches the listeners of the connected socket it arrived on.\<close>

definition on_event :: "env \<Rightarrow> sid \<Rightarrow> event \<Rightarrow> state \<Rightarrow> state" where
  "on_event e sk ev s =
     (case find (\<lambda>k. socket_id k = sk) (sockets s) of
        None \<Rightarrow> s
      | Some k \<Rightarrow>
          (let u = socket_user k in
           case ev of
             EvDirectMessage recipientId content' \<Rightarrow> direct_message e sk u recipientId content' s
           | EvGroupMessage groupId content' \<Rightarrow> group_message e sk u groupId content' s
           | EvJoinGroup groupId \<Rightarrow> join_group e sk u groupId s
           | EvLeaveGroup groupId \<Rightarrow> leave_group e sk u groupId s
           | EvTyping recipientId isTyping \<Rightarrow> typing sk u recipientId isTyping s
           | EvGroupTyping groupId isTyping \<Rightarrow> group_typing sk u groupId isTyping s
           | EvDisconnect \<Rightarrow> disconnect sk u s))"

text \<open>
  An event can also arrive without a body: \<open>data\<close> is \<open>undefined\<close> or \<open>null\<close>, and the
  listener's first statement, which destructures it, throws a TypeError. In the four async listeners
  that statement is inside the \<open>try\<close>, so the \<open>catch\<close> block answers the sender. The two
  typing listeners have no \<open>try\<close>: nothing in the service catches the error.
\<close>

datatype listener =
  OnDirectMessage | OnGroupMessage | OnJoinGroup | OnLeaveGroup | OnTyping | OnGroupTyping

datatype outcome = Handled state | Uncaught

definition bodiless :: "sid \<Rightarrow> listener \<Rightarrow> state \<Rightarrow> outcome" where
  "bodiless sk l s =
     (case l of
        OnDirectMessage \<Rightarrow> Handled (socket_emit sk (Error ''Failed to send message'') s)
      | OnGroupMessage \<Rightarrow> Handled (socket_emit sk (Error ''Failed to send group message'') s)
      | OnJoinGroup \<Rightarrow> Handled (socket_emit sk (Error ''Failed to join group'') s)
      | OnLeaveGroup \<Rightarrow> Handled (socket_emit sk (Error ''Failed to leave group'') s)
      | OnTyping \<Rightarrow> Uncaught
      | OnGroupTyping \<Rightarrow> Uncaught)"

text \<open>
  What happens at the server, one thing after the other: a socket connects, an event with
  a body arrives on a socket, an event without a body arrives on a socket. After an
  uncaught error nothing more is handled.
\<close>

datatype step = Connect sid user | Receive sid event | ReceiveBare sid listener

fun do_step :: "env \<times> step \<Rightarrow> state \<Rightarrow> outcome" where
  "do_step (e, Connect sk u) s = Handled (connection e sk u s)"
| "do_step (e, Receive sk ev) s = Handled (on_event e sk ev s)"
| "do_step (e, ReceiveBare sk l) s =
     (if sk \<in> set (map socket_id (sockets s)) then bodiless sk l s else Handled s)"

fun run :: "(env \<times> step) list \<Rightarrow> state \<Rightarrow> outcome" where
  "run [] s = Handled s"
| "run (x # xs) s = (case do_step x s of Uncaught \<Rightarrow> Uncaught | Handled s' \<Rightarrow> run xs s')"

subsection \<open>The join listener, await by await\<close>

text \<open>
  An async listener runs until its next \<open>await\<close> and then gives way; it goes on once the
  store has answered, and other listeners run in between. The join listener awaits twice:
  \<open>Group.findById\<close>, and \<open>group.addMember\<close>, whose \<open>save()\<close> sends the push of the new
  member to the stored document, not the members array of the listener's copy. A task is
  a join listener waiting for one of the two answers; the store call is made when the task
  is resumed.
\<close>

datatype join_task = AwaitFind sid user gid | AwaitSave sid user gid group

definition join_group_begin ::
  "sid \<Rightarrow> user \<Rightarrow> string option \<Rightarrow> state \<Rightarrow> state \<times> join_task option" where
  "join_group_begin sk u groupId s =
     (case present groupId of
        None \<Rightarrow> (socket_emit sk (Error ''Group ID is required'') s, None)
      | Some gi \<Rightarrow> (s, Some (AwaitFind sk u gi)))"

definition save_push :: "env \<Rightarrow> gid \<Rightarrow> uid \<Rightarrow> state \<Rightarrow> state promise" where
  "save_push e groupId userId s =
     (if save_rejects e then Rejected
      else
        case map_of (groups s) groupId of
          None \<Rightarrow> Rejected
        | Some g \<Rightarrow>
            Resolved
              (s\<lparr>groups := AList.update groupId (g\<lparr>members := members g @ [userId]\<rparr>) (groups s),
                 trace := trace s @ [SavedGroup groupId (g\<lparr>members := members g @ [userId]\<rparr>)]\<rparr>))"

fun join_group_resume :: "env \<Rightarrow> join_task \<Rightarrow> state \<Rightarrow> state \<times> join_task option" where
  "join_group_resume e (AwaitFind sk u gi) s =
     (case findById e s gi of
        Rejected \<Rightarrow> (socket_emit sk (Error ''Failed to join group'') s, None)
      | Resolved None \<Rightarrow> (socket_emit sk (Error ''Group not found'') s, None)
      | Resolved (Some g) \<Rightarrow>
          if \<not> isMember g (user_id u)
          then (s, Some (AwaitSave sk u gi (addMember g (user_id u))))
          else (socket_emit sk (Error ''You are already a member of this group'') s, None))"
| "join_group_resume e (AwaitSave sk u gi g) s =
     (case save_push e gi (user_id u) s of
        Rejected \<Rightarrow> (socket_emit sk (Error ''Failed to join group'') s, None)
      | Resolved s1 \<Rightarrow>
          (socket_emit sk (GroupJoined gi (name g))
             (io_to_emit (GroupRoom gi) (MemberJoined gi (user_id u) u)
               (socket_join sk (GroupRoom gi) s1)),
           None))"

text \<open>
  The waiting tasks are resumed in the order the store answers them: each turn names the
  task that goes on.
\<close>

fun resume_all :: "env \<Rightarrow> nat list \<Rightarrow> join_task option list \<Rightarrow> state \<Rightarrow> state" where
  "resume_all e [] pool s = s"
| "resume_all e (i # turns) pool s =
     (if i < length pool
      then
        (case pool ! i of
           None \<Rightarrow> resume_all e turns pool s
         | Some t \<Rightarrow>
             (case join_group_resume e t s of
                (s', t') \<Rightarrow> resume_all e turns (pool[i := t']) s'))
      else resume_all e turns pool s)"

subsection \<open>Observations\<close>

text \<open>\<open>userSockets.has(userId)\<close>, the service's test for "online".\<close>

definition isOnline :: "state \<Rightarrow> uid \<Rightarrow> bool" where
  "isOnline s userId \<longleftrightarrow> userSockets s userId \<noteq> None"

text \<open>The connected sockets bound to a user.\<close>

definition connectionsFor :: "state \<Rightarrow> uid \<Rightarrow> sid list" where
  "connectionsFor s userId =
     map socket_id (filter (\<lambda>k. user_id (socket_user k) = userId) (sockets s))"

text \<open>What a handler added to the trace.\<close>

definition actions_of :: "state \<Rightarrow> state \<Rightarrow> action list" where
  "actions_of s s' = drop (length (trace s)) (trace s')"

text \<open>The emissions of one event body among some actions.\<close>

definition emissions_of :: "payload \<Rightarrow> action list \<Rightarrow> action list" where
  "emissions_of p acts = filter (\<lambda>a. case a of Emit t q rs \<Rightarrow> q = p | _ \<Rightarrow> False) acts"



text \<open>A socket id is subscribed to a room.\<close>

definition subscribed :: "sid \<Rightarrow> room \<Rightarrow> state \<Rightarrow> bool" where
  "subscribed sk r s \<longleftrightarrow> sk \<in> set (in_room r s)"

text \<open>The socket \<open>sk\<close> is connected and bound to \<open>u\<close>.\<close>

definition bound_to :: "state \<Rightarrow> sid \<Rightarrow> user \<Rightarrow> bool" where
  "bound_to s sk u \<longleftrightarrow>
     (case find (\<lambda>k. socket_id k = sk) (sockets s) of None \<Rightarrow> False | Some k \<Rightarrow> socket_user k = u)"

text \<open>The id of the user the connected socket \<open>sk\<close> is bound to.\<close>

definition owner_of :: "state \<Rightarrow> sid \<Rightarrow> uid option" where
  "owner_of s sk =
     map_option (\<lambda>k. user_id (socket_user k)) (find (\<lambda>k. socket_id k = sk) (sockets s))"

text \<open>
  The step reaches the call \<open>group.removeMember(userId)\<close> for the group \<open>gi\<close> and the
  user \<open>userId\<close>: a leave-group event for \<open>gi\<close> on a socket of that user that gets past
  the lookup, the membership test and the creator test.
\<close>

definition calls_removeMember :: "gid \<Rightarrow> uid \<Rightarrow> env \<times> step \<Rightarrow> state \<Rightarrow> bool" where
  "calls_removeMember gi userId x s =
     (case snd x of
        Receive sk (EvLeaveGroup groupId) \<Rightarrow>
          owner_of s sk = Some userId \<and> present groupId = Some gi \<and>
          (case findById (fst x) s gi of
             Resolved (Some g) \<Rightarrow>
               isMember g userId \<and> \<not> (creator g = userId \<and> length (members g) > 1)
           | _ \<Rightarrow> False)
      | _ \<Rightarrow> False)"

text \<open>
  Along the steps, from the state \<open>s\<close> on, no step calls \<open>removeMember\<close> for the group
  and the user, and the socket \<open>sk\<close> does not disconnect.
\<close>

fun undisturbed :: "gid \<Rightarrow> uid \<Rightarrow> sid \<Rightarrow> (env \<times> step) list \<Rightarrow> state \<Rightarrow> bool" where
  "undisturbed gi userId sk [] s = True"
| "undisturbed gi userId sk (x # xs) s =
     (snd x \<noteq> Receive sk EvDisconnect \<and> \<not> calls_removeMember gi userId x s \<and>
      (case do_step x s of
         Uncaught \<Rightarrow> True
       | Handled s' \<Rightarrow> undisturbed gi userId sk xs s'))"

text \<open>The registry has an entry for a user exactly when a connected socket is bound to it.\<close>

definition registry_inv :: "state \<Rightarrow> bool" where
  "registry_inv s \<longleftrightarrow> (\<forall>userId. isOnline s userId \<longleftrightarrow> connectionsFor s userId \<noteq> [])"

text \<open>Socket ids are unique, and no user has two connected sockets.\<close>

definition one_connection_each :: "state \<Rightarrow> bool" where
  "one_connection_each s \<longleftrightarrow>
     distinct (map socket_id (sockets s)) \<and>
     distinct (map (\<lambda>k. user_id (socket_user k)) (sockets s))"

subsection \<open>A small configuration\<close>

definition alice :: user where
  "alice = \<lparr>user_id = ''u1'', user_name = ''Alice'', firstName = ''Al'', email = ''al@example.org''\<rparr>"

definition bob :: user where
  "bob = \<lparr>user_id = ''u2'', user_name = ''Bob'', firstName = ''Bo'', email = ''bo@example.org''\<rparr>"

definition team :: group where
  "team = \<lparr>name = ''team'', description = None, creator = ''u2'', members = [''u2''],
           createdAt = 0\<rparr>"

definition calm :: env where
  "calm = \<lparr>now = 1, fresh_id = 100, find_rejects = False, save_rejects = False,
           populate_rejects = False, delete_rejects = False\<rparr>"

definition store_down :: env where
  "store_down = calm\<lparr>save_rejects := True\<rparr>"

definition empty_server :: state where
  "empty_server =
     \<lparr>userSockets = Map.empty, sockets = [],
      users = [''u1'' \<mapsto> alice, ''u2'' \<mapsto> bob],
      groups = [(''g1'', team)], messages = [], trace = []\<rparr>"

text \<open>Alice connected on \<open>s1\<close> and on \<open>s2\<close>, Bob, the only member of the team, on \<open>s3\<close>.\<close>

definition three_sockets :: state where
  "three_sockets =
     connection calm ''s3'' bob
       (connection calm ''s2'' alice (connection calm ''s1'' alice empty_server))"

text \<open>Alice on \<open>s1\<close>, Bob on \<open>s3\<close>.\<close>

definition two_sockets :: state where
  "two_sockets = connection calm ''s3'' bob (connection calm ''s1'' alice empty_server)"

text \<open>Then Alice joins the team from \<open>s1\<close>.\<close>

definition after_join :: state where
  "after_join = join_group calm ''s1'' alice (Some ''g1'') two_sockets"

section \<open>Group.removeMember\<close>

lemma isMember_set: "isMember g u \<longleftrightarrow> u \<in> set (members g)"
  by (auto simp: isMember_def list_ex_iff)

text \<open>
  C10. \<open>removeMember(u)\<close> changes the members list only: afterwards \<open>u\<close> is not a
  member, every other identity is a member exactly when it was before, as often as it
  was before, and the remaining members stand in their old relative order (the new list
  is a subsequence of the old one); name, description, creator and createdAt are
  unchanged; when \<open>u\<close> was not a member the members list, and with it the whole record,
  is unchanged.
\<close>

theorem removeMember_frame:
  "\<not> isMember (removeMember g u) u
   \<and> (\<forall>m. m \<noteq> u \<longrightarrow> isMember (removeMember g u) m = isMember g m)
   \<and> (\<forall>m. m \<noteq> u \<longrightarrow> count_list (members (removeMember g u)) m = count_list (members g) m)
   \<and> subseq (members (removeMember g u)) (members g)
   \<and> name (removeMember g u) = name g
   \<and> description (removeMember g u) = description g
   \<and> creator (removeMember g u) = creator g
   \<and> createdAt (removeMember g u) = createdAt g
   \<and> (\<not> isMember g u \<longrightarrow> members (removeMember g u) = members g \<and> removeMember g u = g)"
proof -
  have others: "count_list (filter (\<lambda>x. x \<noteq> u) xs) m = count_list xs m" if "m \<noteq> u"
    for xs :: "uid list" and m
    using that by (induction xs) auto
  have same: "filter (\<lambda>x. x \<noteq> u) xs = xs" if "u \<notin> set xs" for xs :: "uid list"
    using that by (induction xs) auto
  show ?thesis
    by (auto simp: removeMember_def isMember_set others same)
qed

theorem removeMember_frame_witness:
  "\<not> isMember (removeMember \<lparr>name = ''g'', description = None, creator = ''a'',
        members = [''a'', ''b'', ''c''], createdAt = 7\<rparr> ''b'') ''b''
   \<and> members (removeMember \<lparr>name = ''g'', description = None, creator = ''a'',
        members = [''a'', ''b'', ''c''], createdAt = 7\<rparr> ''b'') = [''a'', ''c'']
   \<and> isMember (removeMember \<lparr>name = ''g'', description = None, creator = ''a'',
        members = [''a'', ''b'', ''c''], createdAt = 7\<rparr> ''b'') ''c''
   \<and> removeMember \<lparr>name = ''g'', description = None, creator = ''a'',
        members = [''a'', ''b'', ''c''], createdAt = 7\<rparr> ''d''
       = \<lparr>name = ''g'', description = None, creator = ''a'',
        members = [''a'', ''b'', ''c''], createdAt = 7\<rparr>"
  using removeMember_frame [of "\<lparr>name = ''g'', description = None, creator = ''a'',
        members = [''a'', ''b'', ''c''], createdAt = 7\<rparr>" "''b''"]
    removeMember_frame [of "\<lparr>name = ''g'', description = None, creator = ''a'',
        members = [''a'', ''b'', ''c''], createdAt = 7\<rparr>" "''d''"]
  by (simp add: removeMember_def isMember_def)

section \<open>Evaluating the model\<close>

lemmas handler_defs = on_event_def connection_def disconnect_def direct_message_def
  group_message_def join_group_def leave_group_def typing_def group_typing_def joinUserGroups_def

lemmas store_defs = findById_def save_group_def save_message_def findByIdAndDelete_def
  populate_def new_message_def message_valid_def present_def trim_def white_space_def

lemmas io_defs = emit_def socket_join_def socket_leave_def in_room_def

lemmas example_defs = alice_def bob_def team_def calm_def store_down_def empty_server_def

lemma three_sockets_eval:
  "three_sockets =
     \<lparr>userSockets = [''u1'' \<mapsto> ''s2'', ''u2'' \<mapsto> ''s3''],
      sockets = [\<lparr>socket_id = ''s1'', socket_user = alice, rooms = {UserRoom ''u1''}\<rparr>,
                 \<lparr>socket_id = ''s2'', socket_user = alice, rooms = {UserRoom ''u1''}\<rparr>,
                 \<lparr>socket_id = ''s3'', socket_user = bob,
                    rooms = {GroupRoom ''g1'', UserRoom ''u2''}\<rparr>],
      users = [''u1'' \<mapsto> alice, ''u2'' \<mapsto> bob],
      groups = [(''g1'', team)], messages = [],
      trace = [Emit ToAll (UserStatus ''u1'' Online) [''s1''],
               Emit ToAll (UserStatus ''u1'' Online) [''s1'', ''s2''],
               Emit ToAll (UserStatus ''u2'' Online) [''s1'', ''s2'', ''s3'']]\<rparr>"
  by (simp add: three_sockets_def handler_defs io_defs example_defs Let_def)

lemma two_sockets_eval:
  "two_sockets =
     \<lparr>userSockets = [''u1'' \<mapsto> ''s1'', ''u2'' \<mapsto> ''s3''],
      sockets = [\<lparr>socket_id = ''s1'', socket_user = alice, rooms = {UserRoom ''u1''}\<rparr>,
                 \<lparr>socket_id = ''s3'', socket_user = bob,
                    rooms = {GroupRoom ''g1'', UserRoom ''u2''}\<rparr>],
      users = [''u1'' \<mapsto> alice, ''u2'' \<mapsto> bob],
      groups = [(''g1'', team)], messages = [],
      trace = [Emit ToAll (UserStatus ''u1'' Online) [''s1''],
               Emit ToAll (UserStatus ''u2'' Online) [''s1'', ''s3'']]\<rparr>"
  by (simp add: two_sockets_def handler_defs io_defs example_defs Let_def)

section \<open>Group messages from non-members\<close>

text \<open>
  C2. A group-message event for a group the sender is not a member of is answered with
  one error event, emitted to the sender's socket alone; no message is saved, the groups
  are unchanged, and nothing is emitted to a room. When the event carries its group id and
  content and the group lookup answers, the error is \<open>You are not a member of this group\<close>,
  the message the spec calls AuthorizationError (the validation of the fields and the
  lookup come first in the handler, with errors of their own).
\<close>

theorem group_message_non_member:
  assumes "map_of (groups s) gi = Some g" and "\<not> isMember g (user_id u)"
  shows "(\<exists>msg. group_message e sk u (Some gi) content' s = socket_emit sk (Error msg) s)
       \<and> (gi \<noteq> [] \<and> present content' \<noteq> None \<and> \<not> find_rejects e \<longrightarrow>
            group_message e sk u (Some gi) content' s
              = socket_emit sk (Error ''You are not a member of this group'') s)
       \<and> messages (group_message e sk u (Some gi) content' s) = messages s
       \<and> groups (group_message e sk u (Some gi) content' s) = groups s
       \<and> (\<exists>msg. actions_of s (group_message e sk u (Some gi) content' s)
              = [Emit (ToSocket sk) (Error msg) [sk]])"
  using assms
  by (auto simp: group_message_def findById_def present_def emit_def actions_of_def Let_def
      split: option.splits)

theorem group_message_non_member_witness:
  "map_of (groups two_sockets) ''g1'' = Some team \<and> \<not> isMember team (user_id alice)
   \<and> group_message calm ''s1'' alice (Some ''g1'') (Some ''hello'') two_sockets
       = socket_emit ''s1'' (Error ''You are not a member of this group'') two_sockets
   \<and> actions_of two_sockets
        (group_message calm ''s1'' alice (Some ''g1'') (Some ''hello'') two_sockets)
       = [Emit (ToSocket ''s1'') (Error ''You are not a member of this group'') [''s1'']]"
proof -
  have g: "map_of (groups two_sockets) ''g1'' = Some team"
    by (simp add: two_sockets_eval)
  have m: "\<not> isMember team (user_id alice)"
    by (simp add: isMember_def team_def alice_def)
  have p: "''g1'' \<noteq> [] \<and> present (Some ''hello'') \<noteq> None \<and> \<not> find_rejects calm"
    by (simp add: present_def calm_def)
  from group_message_non_member [OF g m, of calm "''s1''" "Some ''hello''"] p
  have eq: "group_message calm ''s1'' alice (Some ''g1'') (Some ''hello'') two_sockets
       = socket_emit ''s1'' (Error ''You are not a member of this group'') two_sockets"
    by blast
  show ?thesis
    using g m eq by (simp add: actions_of_def emit_def)
qed

section \<open>Persistence before fan-out\<close>

lemma actions_of_emit [simp]: "actions_of s (emit t p s) = [Emit t p (recipients s t)]"
  by (simp add: actions_of_def emit_def)



section \<open>Leaving a group\<close>

lemma map_of_delete_update: "map_of (AList.delete k (AList.update k v al)) k = None"
  by (simp add: AList.delete_conv')

text \<open>
  C5. A leave-group event for an existing group, with the lookup answered. When the
  sender is the group's creator, is a member, and some other member remains, the handler
  emits the error \<open>Group creator cannot leave. Transfer ownership or delete the group.\<close>
  (the spec's StateConflict) to the sender's socket and does nothing else, so the group is
  as it was. When the sender is the only member and the store accepts the writes, the
  handler saves the group without the sender, deletes the group record, emits
  \<open>group_deleted\<close> once, to every connected socket, and confirms to the sender; the
  group is then gone from the store.
\<close>

theorem leave_group_creator_or_last:
  assumes "gi \<noteq> []" and "\<not> find_rejects e" and "map_of (groups s) gi = Some g"
  shows "(creator g = user_id u \<and> isMember g (user_id u)
            \<and> (\<exists>m \<in> set (members g). m \<noteq> user_id u) \<longrightarrow>
          leave_group e sk u (Some gi) s
            = socket_emit sk
                (Error ''Group creator cannot leave. Transfer ownership or delete the group.'') s
          \<and> groups (leave_group e sk u (Some gi) s) = groups s)
       \<and> (members g = [user_id u] \<and> \<not> save_rejects e \<and> \<not> delete_rejects e \<longrightarrow>
          actions_of s (leave_group e sk u (Some gi) s)
            = [SavedGroup gi (g\<lparr>members := []\<rparr>), DeletedGroup gi,
               Emit ToAll (GroupDeleted gi) (map socket_id (sockets s)),
               Emit (ToSocket sk) (GroupLeft gi (name g)) [sk]]
          \<and> length (emissions_of (GroupDeleted gi) (actions_of s (leave_group e sk u (Some gi) s))) = 1
          \<and> map_of (groups (leave_group e sk u (Some gi) s)) gi = None)"
proof -
  have many: "1 < length (members g)"
    if "isMember g (user_id u)" and "\<exists>m \<in> set (members g). m \<noteq> user_id u"
  proof -
    from that obtain m where "m \<in> set (members g)" "m \<noteq> user_id u" "user_id u \<in> set (members g)"
      by (auto simp: isMember_set)
    then have "card {m, user_id u} \<le> card (set (members g))"
      by (intro card_mono) auto
    also have "\<dots> \<le> length (members g)" by (rule card_length)
    finally show ?thesis using \<open>m \<noteq> user_id u\<close> by simp
  qed
  have conflict: "creator g = user_id u \<and> isMember g (user_id u)
            \<and> (\<exists>m \<in> set (members g). m \<noteq> user_id u) \<longrightarrow>
          leave_group e sk u (Some gi) s
            = socket_emit sk
                (Error ''Group creator cannot leave. Transfer ownership or delete the group.'') s
          \<and> groups (leave_group e sk u (Some gi) s) = groups s"
    using assms many
    by (auto simp: leave_group_def findById_def present_def emit_def Let_def)
  have last: "members g = [user_id u] \<and> \<not> save_rejects e \<and> \<not> delete_rejects e \<longrightarrow>
          actions_of s (leave_group e sk u (Some gi) s)
            = [SavedGroup gi (g\<lparr>members := []\<rparr>), DeletedGroup gi,
               Emit ToAll (GroupDeleted gi) (map socket_id (sockets s)),
               Emit (ToSocket sk) (GroupLeft gi (name g)) [sk]]
          \<and> length (emissions_of (GroupDeleted gi) (actions_of s (leave_group e sk u (Some gi) s))) = 1
          \<and> map_of (groups (leave_group e sk u (Some gi) s)) gi = None"
    using assms
    by (auto simp: leave_group_def findById_def present_def emit_def Let_def isMember_def
        removeMember_def save_group_def findByIdAndDelete_def socket_leave_def actions_of_def
        emissions_of_def map_of_delete_update comp_def)
  from conflict last show ?thesis by blast
qed

lemma after_join_eval:
  "after_join =
     \<lparr>userSockets = [''u1'' \<mapsto> ''s1'', ''u2'' \<mapsto> ''s3''],
      sockets = [\<lparr>socket_id = ''s1'', socket_user = alice,
                    rooms = {GroupRoom ''g1'', UserRoom ''u1''}\<rparr>,
                 \<lparr>socket_id = ''s3'', socket_user = bob,
                    rooms = {GroupRoom ''g1'', UserRoom ''u2''}\<rparr>],
      users = [''u1'' \<mapsto> alice, ''u2'' \<mapsto> bob],
      groups = [(''g1'', team\<lparr>members := [''u2'', ''u1'']\<rparr>)], messages = [],
      trace = [Emit ToAll (UserStatus ''u1'' Online) [''s1''],
               Emit ToAll (UserStatus ''u2'' Online) [''s1'', ''s3''],
               SavedGroup ''g1'' (team\<lparr>members := [''u2'', ''u1'']\<rparr>),
               Emit (ToRoom (GroupRoom ''g1'')) (MemberJoined ''g1'' ''u1'' alice) [''s1'', ''s3''],
               Emit (ToSocket ''s1'') (GroupJoined ''g1'' ''team'') [''s1'']]\<rparr>"
  by (simp add: after_join_def two_sockets_eval join_group_def findById_def save_group_def
      present_def io_defs isMember_def addMember_def team_def alice_def calm_def Let_def)

theorem leave_group_creator_or_last_witness:
  "leave_group calm ''s3'' bob (Some ''g1'') after_join
     = socket_emit ''s3''
         (Error ''Group creator cannot leave. Transfer ownership or delete the group.'') after_join
   \<and> actions_of two_sockets (leave_group calm ''s3'' bob (Some ''g1'') two_sockets)
     = [SavedGroup ''g1'' (team\<lparr>members := []\<rparr>), DeletedGroup ''g1'',
        Emit ToAll (GroupDeleted ''g1'') [''s1'', ''s3''],
        Emit (ToSocket ''s3'') (GroupLeft ''g1'' ''team'') [''s3'']]
   \<and> map_of (groups (leave_group calm ''s3'' bob (Some ''g1'') two_sockets)) ''g1'' = None"
proof -
  have c: "\<not> find_rejects calm \<and> \<not> save_rejects calm \<and> \<not> delete_rejects calm"
    by (simp add: calm_def)
  have g1: "map_of (groups after_join) ''g1'' = Some (team\<lparr>members := [''u2'', ''u1'']\<rparr>)"
    by (simp add: after_join_eval)
  have h1: "creator (team\<lparr>members := [''u2'', ''u1'']\<rparr>) = user_id bob
      \<and> isMember (team\<lparr>members := [''u2'', ''u1'']\<rparr>) (user_id bob)
      \<and> (\<exists>m \<in> set (members (team\<lparr>members := [''u2'', ''u1'']\<rparr>)). m \<noteq> user_id bob)"
    by (simp add: team_def bob_def isMember_def)
  have g2: "map_of (groups two_sockets) ''g1'' = Some team"
    by (simp add: two_sockets_eval)
  have h2: "members team = [user_id bob] \<and> name team = ''team''
      \<and> map socket_id (sockets two_sockets) = [''s1'', ''s3'']"
    by (simp add: team_def bob_def two_sockets_eval)
  have n: "''g1'' \<noteq> []" by simp
  from leave_group_creator_or_last [OF n _ g1, of calm bob "''s3''"]
    leave_group_creator_or_last [OF n _ g2, of calm bob "''s3''"] c h1 h2
  show ?thesis by simp
qed

section \<open>Joining a group twice\<close>

lemma map_of_update_same: "map_of (AList.update k v al) k = Some v"
  by (simp add: AList.update_conv')

text \<open>
  The join listener given await by await is the listener of \<open>join_group\<close>: resumed twice
  with nothing in between, it does what \<open>join_group\<close> does.
\<close>

lemma join_group_alone:
  "join_group e sk u groupId s
     = (case join_group_begin sk u groupId s of (s0, t) \<Rightarrow> resume_all e [0, 0] [t] s0)"
proof (cases "present groupId")
  case None
  then show ?thesis
    by (simp add: join_group_def join_group_begin_def)
next
  case (Some gi)
  show ?thesis
  proof (cases "findById e s gi")
    case Rejected
    with Some show ?thesis
      by (simp add: join_group_def join_group_begin_def)
  next
    case (Resolved found)
    show ?thesis
    proof (cases found)
      case None
      with Some Resolved show ?thesis
        by (simp add: join_group_def join_group_begin_def)
    next
      case (Some g)
      with Resolved have stored: "map_of (groups s) gi = Some g"
        by (simp add: findById_def split: if_splits)
      show ?thesis
      proof (cases "isMember g (user_id u)")
        case True
        with \<open>present groupId = Some gi\<close> Resolved Some show ?thesis
          by (simp add: join_group_def join_group_begin_def)
      next
        case False
        then have "save_push e gi (user_id u) s = save_group e gi (addMember g (user_id u)) s"
          using stored by (simp add: save_push_def save_group_def addMember_def)
        with False \<open>present groupId = Some gi\<close> Resolved Some show ?thesis
          by (simp add: join_group_def join_group_begin_def addMember_def
              split: promise.splits)
      qed
    qed
  qed
qed

text \<open>
  C6. Alice, not yet a member of the team, sends two join-group events for it from
  \<open>s1\<close>, one right after the other. Both listeners start and wait for their lookup;
  both lookups are answered from the group as it was, so both membership tests pass;
  then both saves push Alice. She is stored in the members twice, both joins are
  confirmed, and no \<open>You are already a member of this group\<close> error is emitted.
\<close>

theorem join_group_race_duplicates_member:
  "join_group_begin ''s1'' alice (Some ''g1'') two_sockets
     = (two_sockets, Some (AwaitFind ''s1'' alice ''g1''))
   \<and> map_of (groups (resume_all calm [0, 1, 0, 1]
          [Some (AwaitFind ''s1'' alice ''g1''), Some (AwaitFind ''s1'' alice ''g1'')]
          two_sockets)) ''g1''
       = Some (team\<lparr>members := [''u2'', ''u1'', ''u1'']\<rparr>)
   \<and> actions_of two_sockets (resume_all calm [0, 1, 0, 1]
          [Some (AwaitFind ''s1'' alice ''g1''), Some (AwaitFind ''s1'' alice ''g1'')]
          two_sockets)
       = [SavedGroup ''g1'' (team\<lparr>members := [''u2'', ''u1'']\<rparr>),
          Emit (ToRoom (GroupRoom ''g1'')) (MemberJoined ''g1'' ''u1'' alice) [''s1'', ''s3''],
          Emit (ToSocket ''s1'') (GroupJoined ''g1'' ''team'') [''s1''],
          SavedGroup ''g1'' (team\<lparr>members := [''u2'', ''u1'', ''u1'']\<rparr>),
          Emit (ToRoom (GroupRoom ''g1'')) (MemberJoined ''g1'' ''u1'' alice) [''s1'', ''s3''],
          Emit (ToSocket ''s1'') (GroupJoined ''g1'' ''team'') [''s1'']]
   \<and> emissions_of (Error ''You are already a member of this group'')
         (actions_of two_sockets (resume_all calm [0, 1, 0, 1]
            [Some (AwaitFind ''s1'' alice ''g1''), Some (AwaitFind ''s1'' alice ''g1'')]
            two_sockets)) = []"
  by (simp add: two_sockets_eval join_group_begin_def findById_def save_push_def present_def
      io_defs actions_of_def emissions_of_def isMember_def addMember_def team_def alice_def
      calm_def)

section \<open>Direct messages to unknown recipients\<close>

text \<open>
  C7. The socket handler never looks the recipient up. Alice sends \<open>hi\<close> to the id
  \<open>u9\<close>, which is no user's: the message is saved and acknowledged, and no error is
  emitted. (The REST controller \<open>sendDirectMessage\<close> answers the same request with
  \<open>Recipient not found\<close>.)
\<close>

theorem direct_message_unknown_recipient_saved:
  "users two_sockets ''u9'' = None
   \<and> messages (direct_message calm ''s1'' alice (Some ''u9'') (Some ''hi'') two_sockets)
       = [\<lparr>msg_id = 100, sender = ''u1'', recipient = Some ''u9'', msg_group = None,
           content = ''hi'', read = False, msg_createdAt = 1\<rparr>]
   \<and> actions_of two_sockets
         (direct_message calm ''s1'' alice (Some ''u9'') (Some ''hi'') two_sockets)
       = [SavedMessage \<lparr>msg_id = 100, sender = ''u1'', recipient = Some ''u9'', msg_group = None,
           content = ''hi'', read = False, msg_createdAt = 1\<rparr>,
          Emit (ToSocket ''s1'') (MessageSent 100) [''s1'']]"
  by (simp add: two_sockets_eval direct_message_def store_defs io_defs actions_of_def
      alice_def bob_def calm_def Let_def)

section \<open>Events with a missing field\<close>

text \<open>
  A typing event without its recipient id changes nothing and emits nothing, so the sender
  gets no error; a typing event without its flag is forwarded to the recipient's room.
\<close>

theorem typing_missing_field_counterexample:
  "typing ''s1'' alice None (Some True) two_sockets = two_sockets
   \<and> actions_of two_sockets (typing ''s1'' alice None (Some True) two_sockets) = []
   \<and> actions_of two_sockets (typing ''s1'' alice (Some ''u2'') None two_sockets)
       = [Emit (ToRoom (UserRoom ''u2'')) (Typing ''u1'' None) [''s3'']]"
  by (simp add: two_sockets_eval typing_def present_def io_defs actions_of_def alice_def)

text \<open>
  C8, amended. A direct-message, group-message, join-group or leave-group event whose
  body is an object with a required field absent or empty is answered with the listener's
  validation error, emitted to the sender's socket, and nothing else happens. A typing or
  group-typing event whose body is an object without its target id is dropped: the state,
  trace included, is unchanged. A typing or group-typing event whose body lacks only its
  flag is forwarded as usual, with the flag absent. A direct-message, group-message,
  join-group or leave-group event that has no body at all is answered with the listener's
  \<open>catch\<close> message (\<open>Failed to ...\<close>), not with the validation error, again emitted to
  the sender's socket with nothing else happening.
\<close>

theorem missing_field_handling:
  "(present recipientId = None \<or> present content' = None \<longrightarrow>
      direct_message e sk u recipientId content' s
        = socket_emit sk (Error ''Recipient ID and content are required'') s)
   \<and> (present groupId = None \<or> present content' = None \<longrightarrow>
      group_message e sk u groupId content' s
        = socket_emit sk (Error ''Group ID and content are required'') s)
   \<and> (present groupId = None \<longrightarrow>
      join_group e sk u groupId s = socket_emit sk (Error ''Group ID is required'') s
      \<and> leave_group e sk u groupId s = socket_emit sk (Error ''Group ID is required'') s)
   \<and> (present recipientId = None \<longrightarrow> typing sk u recipientId isTyping s = s)
   \<and> (present groupId = None \<longrightarrow> group_typing sk u groupId isTyping s = s)
   \<and> (\<forall>rid. present recipientId = Some rid \<longrightarrow>
      typing sk u recipientId None s
        = io_to_emit (UserRoom rid) (Typing (user_id u) None) s)
   \<and> (\<forall>gi. present groupId = Some gi \<longrightarrow>
      group_typing sk u groupId None s
        = socket_to_emit sk (GroupRoom gi) (GroupTyping (user_id u) gi (firstName u) None) s)
   \<and> bodiless sk OnDirectMessage s
        = Handled (socket_emit sk (Error ''Failed to send message'') s)
   \<and> bodiless sk OnGroupMessage s
        = Handled (socket_emit sk (Error ''Failed to send group message'') s)
   \<and> bodiless sk OnJoinGroup s = Handled (socket_emit sk (Error ''Failed to join group'') s)
   \<and> bodiless sk OnLeaveGroup s = Handled (socket_emit sk (Error ''Failed to leave group'') s)"
  by (auto simp: direct_message_def group_message_def join_group_def leave_group_def
      typing_def group_typing_def bodiless_def Let_def split: option.splits)

theorem missing_field_handling_witness:
  "direct_message calm ''s1'' alice (Some ''u2'') None two_sockets
     = socket_emit ''s1'' (Error ''Recipient ID and content are required'') two_sockets
   \<and> group_message calm ''s1'' alice (Some '''') (Some ''hi'') two_sockets
     = socket_emit ''s1'' (Error ''Group ID and content are required'') two_sockets
   \<and> join_group calm ''s1'' alice None two_sockets
     = socket_emit ''s1'' (Error ''Group ID is required'') two_sockets
   \<and> leave_group calm ''s1'' alice None two_sockets
     = socket_emit ''s1'' (Error ''Group ID is required'') two_sockets
   \<and> typing ''s1'' alice None (Some True) two_sockets = two_sockets
   \<and> group_typing ''s1'' alice None (Some True) two_sockets = two_sockets
   \<and> typing ''s1'' alice (Some ''u2'') None two_sockets
     = io_to_emit (UserRoom ''u2'') (Typing (user_id alice) None) two_sockets
   \<and> group_typing ''s1'' alice (Some ''g1'') None two_sockets
     = socket_to_emit ''s1'' (GroupRoom ''g1'')
         (GroupTyping (user_id alice) ''g1'' (firstName alice) None) two_sockets
   \<and> bodiless ''s1'' OnJoinGroup two_sockets
     = Handled (socket_emit ''s1'' (Error ''Failed to join group'') two_sockets)"
proof -
  have p: "present None = None" "present (Some '''') = None"
    "present (Some ''u2'') = Some ''u2''" "present (Some ''g1'') = Some ''g1''"
    by (simp_all add: present_def)
  from missing_field_handling [of "Some ''u2''" None calm "''s1''" alice two_sockets "Some ''''"]
    missing_field_handling [of None "Some ''hi''" calm "''s1''" alice two_sockets "Some ''''"]
    missing_field_handling [of None None calm "''s1''" alice two_sockets None "Some True"]
    missing_field_handling [of "Some ''u2''" None calm "''s1''" alice two_sockets "Some ''g1''"]
    p
  show ?thesis by simp
qed

section \<open>Group typing indicators\<close>

text \<open>
  Alice is not a member of the team; her group typing indicator for it is forwarded to
  Bob's socket all the same.
\<close>

theorem group_typing_non_member_counterexample:
  "map_of (groups two_sockets) ''g1'' = Some team
   \<and> \<not> isMember team (user_id alice)
   \<and> actions_of two_sockets (group_typing ''s1'' alice (Some ''g1'') (Some True) two_sockets)
       = [Emit (ToRoomExcept (GroupRoom ''g1'') ''s1'')
            (GroupTyping ''u1'' ''g1'' ''Al'' (Some True)) [''s3'']]"
  by (simp add: two_sockets_eval group_typing_def present_def io_defs actions_of_def
      isMember_def alice_def team_def)

text \<open>
  C9, amended. A group typing indicator that carries a group id is forwarded by one
  emission, whoever sends it: the handler makes no membership check. The emission goes
  to the sockets subscribed to the group's room except the sender's own socket; nothing
  else in the state changes.
\<close>

theorem group_typing_forwarded:
  assumes "present groupId = Some gi"
  shows "group_typing sk u groupId isTyping s
           = s\<lparr>trace := trace s @
                 [Emit (ToRoomExcept (GroupRoom gi) sk)
                    (GroupTyping (user_id u) gi (firstName u) isTyping)
                    (recipients s (ToRoomExcept (GroupRoom gi) sk))]\<rparr>
       \<and> set (recipients s (ToRoomExcept (GroupRoom gi) sk))
           = {j. subscribed j (GroupRoom gi) s} - {sk}"
  using assms by (auto simp: group_typing_def emit_def subscribed_def)

theorem group_typing_forwarded_witness:
  "actions_of after_join (group_typing ''s1'' alice (Some ''g1'') (Some True) after_join)
     = [Emit (ToRoomExcept (GroupRoom ''g1'') ''s1'')
          (GroupTyping ''u1'' ''g1'' ''Al'' (Some True)) [''s3'']]
   \<and> {j. subscribed j (GroupRoom ''g1'') after_join} - {''s1''} = {''s3''}"
proof -
  have p: "present (Some ''g1'') = Some ''g1''"
    by (simp add: present_def)
  have r: "recipients after_join (ToRoomExcept (GroupRoom ''g1'') ''s1'') = [''s3'']"
    by (simp add: after_join_eval in_room_def)
  note t = group_typing_forwarded [OF p, of "''s1''" alice "Some True" after_join, unfolded r]
  from t have a: "group_typing ''s1'' alice (Some ''g1'') (Some True) after_join
      = after_join\<lparr>trace := trace after_join @
          [Emit (ToRoomExcept (GroupRoom ''g1'') ''s1'')
             (GroupTyping (user_id alice) ''g1'' (firstName alice) (Some True)) [''s3'']]\<rparr>"
    by (rule conjunct1)
  from t have b: "{j. subscribed j (GroupRoom ''g1'') after_join} - {''s1''} = {''s3''}"
    by simp
  show ?thesis
    using a b by (simp add: actions_of_def alice_def)
qed

section \<open>The connection registry\<close>

lemma connectionsFor_socket_join [simp]:
  "connectionsFor (socket_join sk r s) v = connectionsFor s v"
proof -
  have "map socket_id (filter (\<lambda>k. user_id (socket_user k) = v)
          (map (\<lambda>k. if socket_id k = sk then k\<lparr>rooms := insert r (rooms k)\<rparr> else k) xs))
        = map socket_id (filter (\<lambda>k. user_id (socket_user k) = v) xs)" for xs
    by (induction xs) auto
  then show ?thesis by (simp add: connectionsFor_def socket_join_def)
qed

lemma userSockets_socket_join [simp]: "userSockets (socket_join sk r s) = userSockets s"
  by (simp add: socket_join_def)

lemma trace_socket_join [simp]: "trace (socket_join sk r s) = trace s"
  by (simp add: socket_join_def)

lemma socket_ids_socket_join [simp]:
  "map socket_id (sockets (socket_join sk r s)) = map socket_id (sockets s)"
  by (simp add: socket_join_def comp_def if_distrib cong: if_cong)

lemma owners_socket_join [simp]:
  "map (\<lambda>k. user_id (socket_user k)) (sockets (socket_join sk r s))
     = map (\<lambda>k. user_id (socket_user k)) (sockets s)"
  by (simp add: socket_join_def comp_def if_distrib cong: if_cong)

lemma fold_socket_join_frame:
  "connectionsFor (fold (\<lambda>gi. socket_join sk (GroupRoom gi)) gs s) v = connectionsFor s v
   \<and> userSockets (fold (\<lambda>gi. socket_join sk (GroupRoom gi)) gs s) = userSockets s
   \<and> trace (fold (\<lambda>gi. socket_join sk (GroupRoom gi)) gs s) = trace s
   \<and> map socket_id (sockets (fold (\<lambda>gi. socket_join sk (GroupRoom gi)) gs s))
       = map socket_id (sockets s)
   \<and> map (\<lambda>k. user_id (socket_user k)) (sockets (fold (\<lambda>gi. socket_join sk (GroupRoom gi)) gs s))
       = map (\<lambda>k. user_id (socket_user k)) (sockets s)"
  by (induction gs arbitrary: s) simp_all

lemma registry_emit [simp]:
  "connectionsFor (emit t p s) v = connectionsFor s v"
  "userSockets (emit t p s) = userSockets s"
  "sockets (emit t p s) = sockets s"
  by (simp_all add: emit_def connectionsFor_def)

lemma connectionsFor_new_socket:
  "connectionsFor (s\<lparr>sockets := sockets s @ [\<lparr>socket_id = sk, socket_user = u, rooms = {}\<rparr>],
                     userSockets := m\<rparr>) v
     = connectionsFor s v @ (if user_id u = v then [sk] else [])"
  by (simp add: connectionsFor_def)

lemma connection_registry:
  "userSockets (connection e sk u s) = (userSockets s)(user_id u \<mapsto> sk)"
  "connectionsFor (connection e sk u s) v
     = connectionsFor s v @ (if user_id u = v then [sk] else [])"
  "map socket_id (sockets (connection e sk u s)) = map socket_id (sockets s) @ [sk]"
  "map (\<lambda>k. user_id (socket_user k)) (sockets (connection e sk u s))
     = map (\<lambda>k. user_id (socket_user k)) (sockets s) @ [user_id u]"
  unfolding connection_def joinUserGroups_def Let_def
  by (simp_all add: fold_socket_join_frame connectionsFor_new_socket)

lemma find_Some_set: "find P xs = Some k \<Longrightarrow> k \<in> set xs \<and> P k"
  by (induction xs) (auto split: if_splits)

lemma find_bound:
  assumes "bound_to s sk u"
  obtains k where "find (\<lambda>k. socket_id k = sk) (sockets s) = Some k"
    and "k \<in> set (sockets s)" and "socket_id k = sk" and "socket_user k = u"
proof (cases "find (\<lambda>k. socket_id k = sk) (sockets s)")
  case None
  with assms show ?thesis by (simp add: bound_to_def)
next
  case (Some k)
  with assms have "socket_user k = u" by (simp add: bound_to_def)
  with Some find_Some_set [OF Some] that show ?thesis by simp
qed

lemma on_event_disconnect:
  "bound_to s sk u \<Longrightarrow> on_event e sk EvDisconnect s = disconnect sk u s"
  by (erule find_bound) (simp add: on_event_def)

lemma disconnect_fields:
  "sockets (disconnect sk u s) = filter (\<lambda>k. socket_id k \<noteq> sk) (sockets s)"
  "userSockets (disconnect sk u s) = (userSockets s)(user_id u := None)"
  "trace (disconnect sk u s)
     = trace s @ [Emit ToAll (UserStatus (user_id u) Offline)
                    (map socket_id (filter (\<lambda>k. socket_id k \<noteq> sk) (sockets s)))]"
  by (simp_all add: disconnect_def emit_def Let_def)

lemma distinct_map_eqD:
  "distinct (map f xs) \<Longrightarrow> x \<in> set xs \<Longrightarrow> y \<in> set xs \<Longrightarrow> f x = f y \<Longrightarrow> x = y"
  by (simp add: distinct_map inj_on_def)

lemma connectionsFor_empty_iff:
  "connectionsFor s v = [] \<longleftrightarrow> (\<forall>k \<in> set (sockets s). user_id (socket_user k) \<noteq> v)"
  by (simp add: connectionsFor_def filter_empty_conv)

lemma disconnect_keeps_inv:
  assumes b: "bound_to s sk u" and inv: "registry_inv s" and one: "one_connection_each s"
  shows "registry_inv (disconnect sk u s) \<and> one_connection_each (disconnect sk u s)"
proof -
  from b obtain k where k: "k \<in> set (sockets s)" "socket_id k = sk" "socket_user k = u"
    by (rule find_bound)
  from one have ids: "distinct (map socket_id (sockets s))"
    and owners: "distinct (map (\<lambda>k. user_id (socket_user k)) (sockets s))"
    by (simp_all add: one_connection_each_def)
  have mine: "connectionsFor (disconnect sk u s) (user_id u) = []"
    unfolding connectionsFor_empty_iff disconnect_fields
  proof
    fix k' assume "k' \<in> set (filter (\<lambda>k. socket_id k \<noteq> sk) (sockets s))"
    then have in': "k' \<in> set (sockets s)" and other: "socket_id k' \<noteq> sk" by simp_all
    show "user_id (socket_user k') \<noteq> user_id u"
    proof
      assume "user_id (socket_user k') = user_id u"
      then have "user_id (socket_user k') = user_id (socket_user k)" using k(3) by simp
      from distinct_map_eqD [OF owners in' k(1) this] have "k' = k" .
      with other k(2) show False by simp
    qed
  qed
  have others: "(connectionsFor (disconnect sk u s) v = []) = (connectionsFor s v = [])"
    if "v \<noteq> user_id u" for v
    unfolding connectionsFor_empty_iff disconnect_fields
  proof
    assume r: "\<forall>k \<in> set (filter (\<lambda>k. socket_id k \<noteq> sk) (sockets s)). user_id (socket_user k) \<noteq> v"
    show "\<forall>k \<in> set (sockets s). user_id (socket_user k) \<noteq> v"
    proof
      fix k' assume in': "k' \<in> set (sockets s)"
      show "user_id (socket_user k') \<noteq> v"
      proof (cases "socket_id k' = sk")
        case True
        then have "socket_id k' = socket_id k" using k(2) by simp
        from distinct_map_eqD [OF ids in' k(1) this] have "k' = k" .
        with that k(3) show ?thesis by simp
      next
        case False
        with in' r show ?thesis by simp
      qed
    qed
  next
    assume "\<forall>k \<in> set (sockets s). user_id (socket_user k) \<noteq> v"
    then show "\<forall>k \<in> set (filter (\<lambda>k. socket_id k \<noteq> sk) (sockets s)). user_id (socket_user k) \<noteq> v"
      by simp
  qed
  have reg: "registry_inv (disconnect sk u s)"
    unfolding registry_inv_def
  proof
    fix v
    show "isOnline (disconnect sk u s) v = (connectionsFor (disconnect sk u s) v \<noteq> [])"
    proof (cases "v = user_id u")
      case True
      with mine show ?thesis by (simp add: isOnline_def disconnect_fields)
    next
      case False
      from inv have "isOnline s v = (connectionsFor s v \<noteq> [])"
        by (simp add: registry_inv_def)
      with others [OF False] False show ?thesis
        by (simp add: isOnline_def disconnect_fields)
    qed
  qed
  have "one_connection_each (disconnect sk u s)"
    using ids owners
    by (simp add: one_connection_each_def disconnect_fields distinct_map_filter)
  with reg show ?thesis by simp
qed

text \<open>
  Alice has two sockets. Closing \<open>s1\<close> removes her registry entry and broadcasts
  \<open>offline\<close>, while \<open>s2\<close> is still connected.
\<close>

theorem registry_two_connections_counterexample:
  "connectionsFor three_sockets ''u1'' = [''s1'', ''s2'']
   \<and> connectionsFor (on_event calm ''s1'' EvDisconnect three_sockets) ''u1'' = [''s2'']
   \<and> \<not> isOnline (on_event calm ''s1'' EvDisconnect three_sockets) ''u1''
   \<and> actions_of three_sockets (on_event calm ''s1'' EvDisconnect three_sockets)
       = [Emit ToAll (UserStatus ''u1'' Offline) [''s2'', ''s3'']]"
  by (simp add: three_sockets_eval on_event_def disconnect_def emit_def connectionsFor_def
      isOnline_def actions_of_def alice_def bob_def Let_def)

text \<open>
  C1, amended. The registry holds one socket id per user, the one bound last. Binding a
  socket makes its user online and keeps the invariant (an entry exists exactly when a
  connected socket is bound to the user). Closing a socket removes its user's entry and
  broadcasts \<open>offline\<close> exactly once, to every remaining socket, whether or not the
  user has other sockets; where no user has two connected sockets, closing keeps the
  invariant, and a first connection of a user keeps that restriction.
\<close>

theorem registry_one_entry_per_user:
  "userSockets (connection e sk u s) (user_id u) = Some sk
   \<and> isOnline (connection e sk u s) (user_id u)
   \<and> (registry_inv s \<longrightarrow> registry_inv (connection e sk u s))
   \<and> (one_connection_each s \<and> sk \<notin> set (map socket_id (sockets s))
        \<and> connectionsFor s (user_id u) = [] \<longrightarrow> one_connection_each (connection e sk u s))
   \<and> (bound_to s sk u \<longrightarrow>
        \<not> isOnline (on_event e sk EvDisconnect s) (user_id u)
        \<and> actions_of s (on_event e sk EvDisconnect s)
            = [Emit ToAll (UserStatus (user_id u) Offline)
                 (filter (\<lambda>j. j \<noteq> sk) (map socket_id (sockets s)))]
        \<and> length (emissions_of (UserStatus (user_id u) Offline)
                    (actions_of s (on_event e sk EvDisconnect s))) = 1)
   \<and> (bound_to s sk u \<and> registry_inv s \<and> one_connection_each s \<longrightarrow>
        registry_inv (on_event e sk EvDisconnect s)
        \<and> one_connection_each (on_event e sk EvDisconnect s))"
proof -
  have bind: "userSockets (connection e sk u s) (user_id u) = Some sk
      \<and> isOnline (connection e sk u s) (user_id u)"
    by (simp add: connection_registry isOnline_def)
  have bind_inv: "registry_inv s \<longrightarrow> registry_inv (connection e sk u s)"
    by (auto simp: registry_inv_def isOnline_def connection_registry)
  have bind_one: "one_connection_each s \<and> sk \<notin> set (map socket_id (sockets s))
        \<and> connectionsFor s (user_id u) = [] \<longrightarrow> one_connection_each (connection e sk u s)"
  proof
    assume h: "one_connection_each s \<and> sk \<notin> set (map socket_id (sockets s))
        \<and> connectionsFor s (user_id u) = []"
    then have "user_id u \<notin> set (map (\<lambda>k. user_id (socket_user k)) (sockets s))"
      by (auto simp: connectionsFor_empty_iff)
    with h show "one_connection_each (connection e sk u s)"
      by (simp add: one_connection_each_def connection_registry)
  qed
  have close: "\<not> isOnline (on_event e sk EvDisconnect s) (user_id u)
        \<and> actions_of s (on_event e sk EvDisconnect s)
            = [Emit ToAll (UserStatus (user_id u) Offline)
                 (filter (\<lambda>j. j \<noteq> sk) (map socket_id (sockets s)))]
        \<and> length (emissions_of (UserStatus (user_id u) Offline)
                    (actions_of s (on_event e sk EvDisconnect s))) = 1"
    if "bound_to s sk u"
    unfolding on_event_disconnect [OF that]
    by (simp add: disconnect_fields isOnline_def actions_of_def emissions_of_def filter_map
        comp_def)
  have close_inv: "registry_inv (on_event e sk EvDisconnect s)
        \<and> one_connection_each (on_event e sk EvDisconnect s)"
    if "bound_to s sk u" "registry_inv s" "one_connection_each s"
    using on_event_disconnect [OF that(1), of e] disconnect_keeps_inv [OF that] by simp
  from bind bind_inv bind_one close close_inv show ?thesis by blast
qed

theorem registry_one_entry_per_user_witness:
  "registry_inv empty_server \<and> one_connection_each empty_server
   \<and> registry_inv (connection calm ''s1'' alice empty_server)
   \<and> one_connection_each (connection calm ''s1'' alice empty_server)
   \<and> isOnline (connection calm ''s1'' alice empty_server) ''u1''
   \<and> bound_to two_sockets ''s1'' alice \<and> registry_inv two_sockets
   \<and> one_connection_each two_sockets
   \<and> \<not> isOnline (on_event calm ''s1'' EvDisconnect two_sockets) ''u1''
   \<and> actions_of two_sockets (on_event calm ''s1'' EvDisconnect two_sockets)
       = [Emit ToAll (UserStatus ''u1'' Offline) [''s3'']]
   \<and> registry_inv (on_event calm ''s1'' EvDisconnect two_sockets)
   \<and> one_connection_each (on_event calm ''s1'' EvDisconnect two_sockets)"
proof -
  have r0: "registry_inv empty_server"
    by (simp add: registry_inv_def isOnline_def connectionsFor_def empty_server_def)
  have o0: "one_connection_each empty_server"
    "''s1'' \<notin> set (map socket_id (sockets empty_server))"
    "connectionsFor empty_server (user_id alice) = []"
    by (simp_all add: one_connection_each_def connectionsFor_def empty_server_def)
  have two: "two_sockets = connection calm ''s3'' bob (connection calm ''s1'' alice empty_server)"
    by (simp add: two_sockets_def)
  note first = registry_one_entry_per_user [of calm "''s1''" alice empty_server]
  from first r0 o0 have r1: "registry_inv (connection calm ''s1'' alice empty_server)"
    and o1: "one_connection_each (connection calm ''s1'' alice empty_server)"
    and on1: "isOnline (connection calm ''s1'' alice empty_server) (user_id alice)"
    by blast+
  from registry_one_entry_per_user
      [of calm "''s3''" bob "connection calm ''s1'' alice empty_server"] r1
  have r2: "registry_inv two_sockets"
    unfolding two by blast
  have o2: "one_connection_each two_sockets"
    by (simp add: two_sockets_eval one_connection_each_def alice_def bob_def)
  have b: "bound_to two_sockets ''s1'' alice"
    by (simp add: two_sockets_eval bound_to_def)
  have ids: "filter (\<lambda>j. j \<noteq> ''s1'') (map socket_id (sockets two_sockets)) = [''s3'']"
    by (simp add: two_sockets_eval)
  note close = registry_one_entry_per_user [of calm "''s1''" alice two_sockets, unfolded ids]
  from close b r2 o2
  have c: "\<not> isOnline (on_event calm ''s1'' EvDisconnect two_sockets) (user_id alice)"
    "actions_of two_sockets (on_event calm ''s1'' EvDisconnect two_sockets)
       = [Emit ToAll (UserStatus (user_id alice) Offline) [''s3'']]"
    "registry_inv (on_event calm ''s1'' EvDisconnect two_sockets)"
    "one_connection_each (on_event calm ''s1'' EvDisconnect two_sockets)"
    by blast+
  have a: "user_id alice = ''u1''" by (simp add: alice_def)
  show ?thesis
    using r0 o0(1) r1 o1 on1 b r2 o2 c unfolding a by simp
qed

section \<open>Room subscriptions after a join\<close>

lemma subscribed_iff:
  "subscribed sk r s \<longleftrightarrow> (\<exists>k \<in> set (sockets s). socket_id k = sk \<and> r \<in> rooms k)"
  by (auto simp: subscribed_def in_room_def)

lemma subscribed_emit [simp]: "subscribed sk r (emit t p s) = subscribed sk r s"
  by (simp add: subscribed_iff)

lemma in_room_socket_join:
  "in_room r (socket_join sk' r' s)
     = map socket_id (filter (\<lambda>k. r \<in> rooms k \<or> (socket_id k = sk' \<and> r = r')) (sockets s))"
proof -
  have "map socket_id (filter (\<lambda>k. r \<in> rooms k)
          (map (\<lambda>k. if socket_id k = sk' then k\<lparr>rooms := insert r' (rooms k)\<rparr> else k) xs))
        = map socket_id (filter (\<lambda>k. r \<in> rooms k \<or> (socket_id k = sk' \<and> r = r')) xs)" for xs
    by (induction xs) auto
  then show ?thesis by (simp add: in_room_def socket_join_def)
qed

lemma in_room_socket_leave:
  "in_room r (socket_leave sk' r' s)
     = map socket_id (filter (\<lambda>k. r \<in> rooms k \<and> \<not> (socket_id k = sk' \<and> r = r')) (sockets s))"
proof -
  have "map socket_id (filter (\<lambda>k. r \<in> rooms k)
          (map (\<lambda>k. if socket_id k = sk' then k\<lparr>rooms := rooms k - {r'}\<rparr> else k) xs))
        = map socket_id (filter (\<lambda>k. r \<in> rooms k \<and> \<not> (socket_id k = sk' \<and> r = r')) xs)" for xs
    by (induction xs) auto
  then show ?thesis by (simp add: in_room_def socket_leave_def)
qed

lemma subscribed_socket_join:
  "subscribed sk r (socket_join sk' r' s)
     \<longleftrightarrow> subscribed sk r s \<or> (sk = sk' \<and> r = r' \<and> sk \<in> set (map socket_id (sockets s)))"
  unfolding subscribed_def in_room_socket_join by (auto simp: in_room_def)

lemma subscribed_socket_leave:
  "subscribed sk r s \<Longrightarrow> \<not> (sk = sk' \<and> r = r') \<Longrightarrow> subscribed sk r (socket_leave sk' r' s)"
  unfolding subscribed_def in_room_socket_leave by (auto simp: in_room_def)

lemma subscribed_fold_join:
  "subscribed sk r s \<Longrightarrow> subscribed sk r (fold (\<lambda>gi. socket_join sk' (GroupRoom gi)) gs s)"
  by (induction gs arbitrary: s) (simp_all add: subscribed_socket_join)

lemma subscribed_sockets_cong:
  "sockets s' = sockets s \<Longrightarrow> subscribed sk r s' = subscribed sk r s"
  by (simp add: subscribed_iff)

lemma subscribed_connection:
  "subscribed sk r s \<Longrightarrow> subscribed sk r (connection e sk' u s)"
proof -
  assume a: "subscribed sk r s"
  let ?s2 = "s\<lparr>sockets := sockets s @ [\<lparr>socket_id = sk', socket_user = u, rooms = {}\<rparr>],
               userSockets := (userSockets s)(user_id u \<mapsto> sk')\<rparr>"
  from a have "subscribed sk r ?s2"
    by (auto simp: subscribed_iff)
  then have "subscribed sk r (io_emit (UserStatus (user_id u) Online)
      (socket_join sk' (UserRoom (user_id u)) ?s2))"
    by (simp add: subscribed_socket_join)
  then show ?thesis
    by (simp add: connection_def joinUserGroups_def Let_def subscribed_fold_join)
qed

lemma subscribed_disconnect:
  "subscribed sk r s \<Longrightarrow> sk' \<noteq> sk \<Longrightarrow> subscribed sk r (disconnect sk' u s)"
  by (auto simp: subscribed_iff disconnect_fields)

lemma sockets_direct_message [simp]: "sockets (direct_message e sk u rid c s) = sockets s"
  by (auto simp: direct_message_def save_message_def populate_def Let_def
      split: option.splits promise.splits)

lemma sockets_group_message [simp]: "sockets (group_message e sk u gi c s) = sockets s"
  by (auto simp: group_message_def save_message_def populate_def findById_def Let_def
      split: option.splits promise.splits)

lemma sockets_typing [simp]:
  "sockets (typing sk u rid f s) = sockets s" "sockets (group_typing sk u gi f s) = sockets s"
  by (simp_all add: typing_def group_typing_def split: option.splits)

lemma save_group_sockets:
  "save_group e gi g s = Resolved s1 \<Longrightarrow> sockets s1 = sockets s"
  by (auto simp: save_group_def split: if_splits)

lemma delete_group_sockets:
  "findByIdAndDelete e gi s = Resolved s1 \<Longrightarrow> sockets s1 = sockets s"
  by (auto simp: findByIdAndDelete_def split: if_splits)

lemma subscribed_join_group:
  "subscribed sk r s \<Longrightarrow> subscribed sk r (join_group e sk' u groupId s)"
  by (auto simp: join_group_def Let_def subscribed_socket_join
      subscribed_sockets_cong [OF save_group_sockets]
      split: option.splits promise.splits)

lemma subscribed_leave_group:
  assumes "subscribed sk r s" and "\<not> (sk' = sk \<and> (\<exists>gi. present groupId = Some gi \<and> r = GroupRoom gi))"
  shows "subscribed sk r (leave_group e sk' u groupId s)"
proof (cases "present groupId")
  case None
  with assms(1) show ?thesis by (simp add: leave_group_def)
next
  case (Some gi)
  with assms(2) have ne: "\<not> (sk = sk' \<and> r = GroupRoom gi)" by auto
  have kept: "subscribed sk r (socket_leave sk' (GroupRoom gi) s1)"
    if "save_group e gi g' s = Resolved s1" for g' s1
    using assms(1) ne subscribed_sockets_cong [OF save_group_sockets [OF that]]
    by (simp add: subscribed_socket_leave)
  have kept2: "subscribed sk r s3"
    if "save_group e gi g' s = Resolved s1"
      and "findByIdAndDelete e gi (socket_leave sk' (GroupRoom gi) s1) = Resolved s3" for g' s1 s3
    using kept [OF that(1)] subscribed_sockets_cong [OF delete_group_sockets [OF that(2)]]
    by simp
  show ?thesis
    using Some assms(1) kept kept2
    by (simp add: leave_group_def Let_def split: option.splits promise.splits)
qed

lemma owner_of_cong: "sockets s' = sockets s \<Longrightarrow> owner_of s' sk = owner_of s sk"
  by (simp add: owner_of_def)

lemma owner_of_rooms_update:
  "map_option (\<lambda>k. user_id (socket_user k))
     (find (\<lambda>k. socket_id k = sk)
        (map (\<lambda>k. if socket_id k = sk' then k\<lparr>rooms := f (rooms k)\<rparr> else k) xs))
   = map_option (\<lambda>k. user_id (socket_user k)) (find (\<lambda>k. socket_id k = sk) xs)"
  by (induction xs) auto

lemma owner_of_socket_join [simp]: "owner_of (socket_join sk' r s) sk = owner_of s sk"
  by (simp add: owner_of_def socket_join_def owner_of_rooms_update)

lemma owner_of_socket_leave [simp]: "owner_of (socket_leave sk' r s) sk = owner_of s sk"
  using owner_of_rooms_update [of sk sk' "\<lambda>rs. rs - {r}" "sockets s"]
  by (simp add: owner_of_def socket_leave_def)

lemma owner_of_emit [simp]: "owner_of (emit t p s) sk = owner_of s sk"
  by (simp add: owner_of_def)

lemma owner_of_fold_join [simp]:
  "owner_of (fold (\<lambda>gi. socket_join sk' (GroupRoom gi)) gs s) sk = owner_of s sk"
  by (induction gs arbitrary: s) simp_all

lemma find_append_Some: "find P xs = Some x \<Longrightarrow> find P (xs @ ys) = Some x"
  by (induction xs) (auto split: if_splits)

lemma find_filter_implied: "(\<And>x. P x \<Longrightarrow> Q x) \<Longrightarrow> find P (filter Q xs) = find P xs"
  by (induction xs) auto

lemma owner_of_connection:
  assumes "owner_of s sk = Some uid"
  shows "owner_of (connection e sk' u s) sk = Some uid"
proof -
  let ?s2 = "s\<lparr>sockets := sockets s @ [\<lparr>socket_id = sk', socket_user = u, rooms = {}\<rparr>],
               userSockets := (userSockets s)(user_id u \<mapsto> sk')\<rparr>"
  from assms obtain k where "find (\<lambda>k. socket_id k = sk) (sockets s) = Some k"
    and "user_id (socket_user k) = uid"
    by (auto simp: owner_of_def)
  then have "owner_of ?s2 sk = Some uid"
    by (simp add: owner_of_def find_append_Some)
  then show ?thesis
    by (simp add: connection_def joinUserGroups_def Let_def)
qed

lemma owner_of_disconnect:
  "sk' \<noteq> sk \<Longrightarrow> owner_of (disconnect sk' u s) sk = owner_of s sk"
  by (simp add: owner_of_def disconnect_fields find_filter_implied)

lemma owner_of_join_group: "owner_of (join_group e sk' u groupId s) sk = owner_of s sk"
  by (auto simp: join_group_def Let_def owner_of_cong [OF save_group_sockets]
      split: option.splits promise.splits)

lemma owner_of_leave_group: "owner_of (leave_group e sk' u groupId s) sk = owner_of s sk"
proof -
  have a: "owner_of (socket_leave sk' r s1) sk = owner_of s sk"
    if "save_group e gi g' s = Resolved s1" for gi g' s1 r
    using owner_of_cong [OF save_group_sockets [OF that]] by simp
  have b: "owner_of s3 sk = owner_of s sk"
    if "save_group e gi g' s = Resolved s1"
      and "findByIdAndDelete e gi (socket_leave sk' r s1) = Resolved s3" for gi g' s1 s3 r
    using a [OF that(1)] owner_of_cong [OF delete_group_sockets [OF that(2)]] by simp
  show ?thesis
    using a b
    by (simp add: leave_group_def Let_def split: option.splits promise.splits)
qed

lemma owner_of_on_event:
  assumes "\<not> (sk' = sk \<and> ev = EvDisconnect)"
  shows "owner_of (on_event e sk' ev s) sk = owner_of s sk"
proof (cases "find (\<lambda>k. socket_id k = sk') (sockets s)")
  case None
  then show ?thesis by (simp add: on_event_def)
next
  case (Some k)
  show ?thesis
  proof (cases ev)
    case EvDisconnect
    with assms have "sk' \<noteq> sk" by simp
    from owner_of_disconnect [OF this] Some EvDisconnect show ?thesis
      by (simp add: on_event_def)
  next
    case (EvJoinGroup groupId)
    with Some show ?thesis by (simp add: on_event_def owner_of_join_group)
  next
    case (EvLeaveGroup groupId)
    with Some show ?thesis by (simp add: on_event_def owner_of_leave_group)
  next
    case (EvDirectMessage recipientId content')
    with Some owner_of_cong [OF sockets_direct_message] show ?thesis
      by (simp add: on_event_def)
  next
    case (EvGroupMessage groupId content')
    with Some owner_of_cong [OF sockets_group_message] show ?thesis
      by (simp add: on_event_def)
  next
    case (EvTyping recipientId isTyping)
    with Some owner_of_cong [OF sockets_typing(1)] show ?thesis
      by (simp add: on_event_def)
  next
    case (EvGroupTyping groupId isTyping)
    with Some owner_of_cong [OF sockets_typing(2)] show ?thesis
      by (simp add: on_event_def)
  qed
qed

text \<open>A leave-group event that does not reach \<open>removeMember\<close> leaves every room as it is.\<close>

lemma leave_group_not_reached:
  assumes "present groupId = Some gi"
    and "\<not> (case findById e s gi of
             Resolved (Some g) \<Rightarrow>
               isMember g (user_id u) \<and> \<not> (creator g = user_id u \<and> length (members g) > 1)
           | _ \<Rightarrow> False)"
  shows "sockets (leave_group e sk u groupId s) = sockets s"
  using assms
  by (auto simp: leave_group_def Let_def emit_def split: promise.splits option.splits)

lemma subscribed_on_event:
  assumes sub: "subscribed sk (GroupRoom gi) s" and own: "owner_of s sk = Some uid"
    and nd: "\<not> (sk' = sk \<and> ev = EvDisconnect)"
    and nr: "\<not> calls_removeMember gi uid (e, Receive sk' ev) s"
  shows "subscribed sk (GroupRoom gi) (on_event e sk' ev s)"
proof (cases "find (\<lambda>k. socket_id k = sk') (sockets s)")
  case None
  with sub show ?thesis by (simp add: on_event_def)
next
  case (Some k)
  show ?thesis
  proof (cases ev)
    case (EvLeaveGroup groupId)
    have step: "on_event e sk' ev s = leave_group e sk' (socket_user k) groupId s"
      using Some EvLeaveGroup by (simp add: on_event_def)
    show ?thesis
    proof (cases "sk' = sk \<and> present groupId = Some gi")
      case True
      with own Some have uid: "user_id (socket_user k) = uid"
        by (simp add: owner_of_def)
      have "\<not> (case findById e s gi of
             Resolved (Some g) \<Rightarrow>
               isMember g (user_id (socket_user k))
               \<and> \<not> (creator g = user_id (socket_user k) \<and> length (members g) > 1)
           | _ \<Rightarrow> False)"
        unfolding uid using nr True own EvLeaveGroup
        by (simp add: calls_removeMember_def)
      from leave_group_not_reached [OF _ this] True
      have "sockets (leave_group e sk' (socket_user k) groupId s) = sockets s"
        by simp
      from subscribed_sockets_cong [OF this] sub step show ?thesis
        by simp
    next
      case False
      then have "\<not> (sk' = sk \<and> (\<exists>gi'. present groupId = Some gi' \<and> GroupRoom gi = GroupRoom gi'))"
        by auto
      from subscribed_leave_group [OF sub this] step show ?thesis
        by simp
    qed
  next
    case EvDisconnect
    with nd have "sk' \<noteq> sk" by simp
    from subscribed_disconnect [OF sub this] Some EvDisconnect show ?thesis
      by (simp add: on_event_def)
  next
    case (EvJoinGroup groupId)
    with Some subscribed_join_group [OF sub] show ?thesis
      by (simp add: on_event_def)
  next
    case (EvDirectMessage recipientId content')
    with Some sub subscribed_sockets_cong [OF sockets_direct_message] show ?thesis
      by (simp add: on_event_def)
  next
    case (EvGroupMessage groupId content')
    with Some sub subscribed_sockets_cong [OF sockets_group_message] show ?thesis
      by (simp add: on_event_def)
  next
    case (EvTyping recipientId isTyping)
    with Some sub subscribed_sockets_cong [OF sockets_typing(1)] show ?thesis
      by (simp add: on_event_def)
  next
    case (EvGroupTyping groupId isTyping)
    with Some sub subscribed_sockets_cong [OF sockets_typing(2)] show ?thesis
      by (simp add: on_event_def)
  qed
qed

lemma bodiless_sockets: "bodiless sk l s = Handled s' \<Longrightarrow> sockets s' = sockets s"
  by (auto simp: bodiless_def split: listener.splits)

lemma subscribed_do_step:
  assumes sub: "subscribed sk (GroupRoom gi) s" and own: "owner_of s sk = Some uid"
    and nd: "snd x \<noteq> Receive sk EvDisconnect"
    and nr: "\<not> calls_removeMember gi uid x s"
    and step: "do_step x s = Handled s'"
  shows "subscribed sk (GroupRoom gi) s' \<and> owner_of s' sk = Some uid"
proof -
  obtain e st where x: "x = (e, st)" by (cases x)
  show ?thesis
  proof (cases st)
    case (Connect sk' u)
    with x step have "s' = connection e sk' u s" by simp
    with sub own show ?thesis
      by (simp add: subscribed_connection owner_of_connection)
  next
    case (Receive sk' ev)
    with x step have s': "s' = on_event e sk' ev s" by simp
    from nd x Receive have nd': "\<not> (sk' = sk \<and> ev = EvDisconnect)" by simp
    from nr x Receive have nr': "\<not> calls_removeMember gi uid (e, Receive sk' ev) s" by simp
    from subscribed_on_event [OF sub own nd' nr'] owner_of_on_event [OF nd'] own s'
    show ?thesis by simp
  next
    case (ReceiveBare sk' l)
    with x step have "sockets s' = sockets s"
      by (auto simp: bodiless_sockets split: if_splits)
    from subscribed_sockets_cong [OF this] owner_of_cong [OF this] sub own show ?thesis
      by simp
  qed
qed

lemma subscribed_run:
  assumes "subscribed sk (GroupRoom gi) s" and "owner_of s sk = Some uid"
    and "undisturbed gi uid sk steps s" and "run steps s = Handled s'"
  shows "subscribed sk (GroupRoom gi) s'"
  using assms
proof (induction steps arbitrary: s)
  case Nil
  then show ?case by simp
next
  case (Cons x steps)
  from Cons.prems(4) obtain s1 where s1: "do_step x s = Handled s1"
    and rest: "run steps s1 = Handled s'"
    by (auto split: outcome.splits)
  from Cons.prems(3) s1 have nd: "snd x \<noteq> Receive sk EvDisconnect"
    and nr: "\<not> calls_removeMember gi uid x s"
    and later: "undisturbed gi uid sk steps s1"
    by simp_all
  from subscribed_do_step [OF Cons.prems(1,2) nd nr s1]
  have "subscribed sk (GroupRoom gi) s1" "owner_of s1 sk = Some uid" by simp_all
  from Cons.IH [OF this later rest] show ?case .
qed

text \<open>
  Alice is connected on \<open>s1\<close> and \<open>s2\<close> and joins the team from \<open>s1\<close>: she is a
  member, and the room holds \<open>s1\<close> and Bob's \<open>s3\<close>, but not her other socket \<open>s2\<close>.
\<close>

theorem join_group_other_socket_counterexample:
  "map_of (groups (join_group calm ''s1'' alice (Some ''g1'') three_sockets)) ''g1''
     = Some (team\<lparr>members := [''u2'', ''u1'']\<rparr>)
   \<and> connectionsFor (join_group calm ''s1'' alice (Some ''g1'') three_sockets) ''u1''
     = [''s1'', ''s2'']
   \<and> recipients (join_group calm ''s1'' alice (Some ''g1'') three_sockets)
        (ToRoom (GroupRoom ''g1'')) = [''s1'', ''s3'']
   \<and> \<not> subscribed ''s2'' (GroupRoom ''g1'')
         (join_group calm ''s1'' alice (Some ''g1'') three_sockets)"
  by (simp add: three_sockets_eval join_group_def findById_def save_group_def present_def
      io_defs isMember_def addMember_def connectionsFor_def subscribed_def team_def alice_def
      bob_def calm_def Let_def)

text \<open>
  C4, amended. \<open>addMember\<close> makes the user a member. After a join-group event that
  arrives on the socket \<open>sk\<close> of the user and names, by its stored id, a group the user
  was not a member of (the store answering), the stored group has the user as a member
  and \<open>sk\<close> is among the fan-out targets of the group's room. The join changes the
  subscriptions of no other socket: any other socket, of this user or another, is
  subscribed to a room after the join exactly if it was before. \<open>sk\<close> stays among the
  room's fan-out targets through the connections and socket events that follow, until
  one of them calls \<open>removeMember\<close> for this group and this user or \<open>sk\<close> disconnects
  (or an uncaught error ends the service).
\<close>

theorem join_group_subscribes_joining_socket:
  assumes "gi \<noteq> []" and "map_of (groups s) gi = Some g" and "\<not> isMember g (user_id u)"
    and "\<not> find_rejects e" and "\<not> save_rejects e" and "bound_to s sk u"
  shows "isMember (addMember g (user_id u)) (user_id u)
       \<and> map_of (groups (join_group e sk u (Some gi) s)) gi = Some (addMember g (user_id u))
       \<and> sk \<in> set (recipients (join_group e sk u (Some gi) s) (ToRoom (GroupRoom gi)))
       \<and> (\<forall>j r. j \<noteq> sk \<longrightarrow>
            subscribed j r (join_group e sk u (Some gi) s) = subscribed j r s)
       \<and> (\<forall>steps s'.
            undisturbed gi (user_id u) sk steps (join_group e sk u (Some gi) s)
            \<and> run steps (join_group e sk u (Some gi) s) = Handled s' \<longrightarrow>
            sk \<in> set (recipients s' (ToRoom (GroupRoom gi))))"
proof -
  let ?s' = "join_group e sk u (Some gi) s"
  let ?s1 = "s\<lparr>groups := AList.update gi (addMember g (user_id u)) (groups s),
               trace := trace s @ [SavedGroup gi (addMember g (user_id u))]\<rparr>"
  from assms(6) obtain k where k: "k \<in> set (sockets s)" "socket_id k = sk"
    and found: "find (\<lambda>k. socket_id k = sk) (sockets s) = Some k" and ku: "socket_user k = u"
    by (rule find_bound)
  from k have live: "sk \<in> set (map socket_id (sockets s))" by auto
  from found ku have own: "owner_of s sk = Some (user_id u)"
    by (simp add: owner_of_def)
  have unfold: "?s' = socket_emit sk (GroupJoined gi (name g))
      (io_to_emit (GroupRoom gi) (MemberJoined gi (user_id u) u)
        (socket_join sk (GroupRoom gi) ?s1))"
    using assms(1-5)
    by (simp add: join_group_def findById_def save_group_def present_def Let_def)
  have member: "isMember (addMember g (user_id u)) (user_id u)"
    by (simp add: addMember_def isMember_set)
  have stored: "map_of (groups ?s') gi = Some (addMember g (user_id u))"
    unfolding unfold by (simp add: emit_def socket_join_def map_of_update_same)
  have subs: "subscribed j r ?s' = (subscribed j r s \<or> (j = sk \<and> r = GroupRoom gi))" for j r
  proof -
    have "subscribed j r ?s1 = subscribed j r s"
      by (rule subscribed_sockets_cong) simp
    with live show ?thesis
      unfolding unfold by (auto simp: subscribed_socket_join)
  qed
  have here: "subscribed sk (GroupRoom gi) ?s'"
    by (simp add: subs)
  have own': "owner_of ?s' sk = Some (user_id u)"
    using own by (simp add: owner_of_join_group)
  have later: "sk \<in> set (recipients s' (ToRoom (GroupRoom gi)))"
    if "undisturbed gi (user_id u) sk steps ?s'" and "run steps ?s' = Handled s'" for steps s'
    using subscribed_run [OF here own' that] by (simp add: subscribed_def)
  have c3: "sk \<in> set (recipients ?s' (ToRoom (GroupRoom gi)))"
    using here by (simp add: subscribed_def)
  have c4: "\<forall>j r. j \<noteq> sk \<longrightarrow> subscribed j r ?s' = subscribed j r s"
    using subs by simp
  have c5: "\<forall>steps s'. undisturbed gi (user_id u) sk steps ?s' \<and> run steps ?s' = Handled s' \<longrightarrow>
      sk \<in> set (recipients s' (ToRoom (GroupRoom gi)))"
    using later by blast
  from member stored c3 c4 c5 show ?thesis
    by (intro conjI)
qed

theorem join_group_subscribes_joining_socket_witness:
  "bound_to two_sockets ''s1'' alice
   \<and> isMember (addMember team ''u1'') ''u1''
   \<and> map_of (groups after_join) ''g1'' = Some (addMember team ''u1'')
   \<and> ''s1'' \<in> set (recipients after_join (ToRoom (GroupRoom ''g1'')))
   \<and> subscribed ''s3'' (GroupRoom ''g1'') after_join
       = subscribed ''s3'' (GroupRoom ''g1'') two_sockets
   \<and> undisturbed ''g1'' ''u1'' ''s1''
        [(calm, Receive ''s3'' (EvLeaveGroup (Some ''g1''))),
         (calm, Receive ''s1'' (EvLeaveGroup (Some ''g2''))),
         (calm, Connect ''s2'' alice),
         (calm, Receive ''s3'' EvDisconnect)] after_join
   \<and> (case run [(calm, Receive ''s3'' (EvLeaveGroup (Some ''g1''))),
                 (calm, Receive ''s1'' (EvLeaveGroup (Some ''g2''))),
                 (calm, Connect ''s2'' alice),
                 (calm, Receive ''s3'' EvDisconnect)] after_join of
         Uncaught \<Rightarrow> False
       | Handled s' \<Rightarrow> ''s1'' \<in> set (recipients s' (ToRoom (GroupRoom ''g1''))))"
proof -
  let ?steps = "[(calm, Receive ''s3'' (EvLeaveGroup (Some ''g1''))),
                 (calm, Receive ''s1'' (EvLeaveGroup (Some ''g2''))),
                 (calm, Connect ''s2'' alice),
                 (calm, Receive ''s3'' EvDisconnect)]"
  have n: "''g1'' \<noteq> []" by simp
  have g: "map_of (groups two_sockets) ''g1'' = Some team"
    by (simp add: two_sockets_eval)
  have m: "\<not> isMember team (user_id alice)"
    by (simp add: isMember_def team_def alice_def)
  have c: "\<not> find_rejects calm" "\<not> save_rejects calm"
    by (simp_all add: calm_def)
  have b: "bound_to two_sockets ''s1'' alice"
    by (simp add: two_sockets_eval bound_to_def)
  have a: "user_id alice = ''u1''" by (simp add: alice_def)
  have bob's: "owner_of after_join ''s3'' = Some ''u2''"
    by (simp add: after_join_eval owner_of_def bob_def)
  have quiet: "undisturbed ''g1'' ''u1'' ''s1'' ?steps after_join"
    using bob's by (simp add: calls_removeMember_def present_def)
  obtain s' where ran: "run ?steps after_join = Handled s'"
    by simp
  note t = join_group_subscribes_joining_socket [OF n g m c b, folded after_join_def,
      unfolded a]
  from t have t1: "isMember (addMember team ''u1'') ''u1''"
    and t2: "map_of (groups after_join) ''g1'' = Some (addMember team ''u1'')"
    and t3: "''s1'' \<in> set (recipients after_join (ToRoom (GroupRoom ''g1'')))"
    by blast+
  from t have t4: "\<forall>j r. j \<noteq> ''s1'' \<longrightarrow> subscribed j r after_join = subscribed j r two_sockets"
    by blast
  from t have t5: "\<forall>steps s'. undisturbed ''g1'' ''u1'' ''s1'' steps after_join
      \<and> run steps after_join = Handled s' \<longrightarrow>
      ''s1'' \<in> set (recipients s' (ToRoom (GroupRoom ''g1'')))"
    by blast
  from t4 have t4': "subscribed ''s3'' (GroupRoom ''g1'') after_join
      = subscribed ''s3'' (GroupRoom ''g1'') two_sockets"
    by simp
  from t5 quiet ran have "''s1'' \<in> set (recipients s' (ToRoom (GroupRoom ''g1'')))"
    by blast
  with ran have t5': "case run ?steps after_join of
         Uncaught \<Rightarrow> False
       | Handled s' \<Rightarrow> ''s1'' \<in> set (recipients s' (ToRoom (GroupRoom ''g1'')))"
    by simp
  from b t1 t2 t3 t4' quiet t5' show ?thesis
    by (intro conjI)
qed

section \<open>Two scenarios\<close>

text \<open>
  Alice connects, joins the team Bob created (members: Bob), and sends it \<open>hi\<close>: the
  team has two members, the message is saved with the team as its group and Alice as its
  sender, and it is delivered to Alice's and Bob's sockets.
\<close>

theorem scenario_join_then_group_message:
  "map_of (groups after_join) ''g1'' = Some (team\<lparr>members := [''u2'', ''u1'']\<rparr>)
   \<and> messages (group_message calm ''s1'' alice (Some ''g1'') (Some ''hi'') after_join)
       = [\<lparr>msg_id = 100, sender = ''u1'', recipient = None, msg_group = Some ''g1'',
           content = ''hi'', read = False, msg_createdAt = 1\<rparr>]
   \<and> actions_of after_join (group_message calm ''s1'' alice (Some ''g1'') (Some ''hi'') after_join)
       = [SavedMessage \<lparr>msg_id = 100, sender = ''u1'', recipient = None,
            msg_group = Some ''g1'', content = ''hi'', read = False, msg_createdAt = 1\<rparr>,
          Emit (ToRoom (GroupRoom ''g1''))
            (GroupMessage \<lparr>msg_id = 100, sender = ''u1'', recipient = None,
               msg_group = Some ''g1'', content = ''hi'', read = False, msg_createdAt = 1\<rparr>
               (Some alice))
            [''s1'', ''s3''],
          Emit (ToSocket ''s1'') (MessageSent 100) [''s1'']]"
  by (simp add: after_join_eval group_message_def store_defs io_defs actions_of_def
      isMember_def team_def alice_def bob_def calm_def Let_def)

text \<open>
  Alice, the only user connected, sends a direct message to Bob: the message is saved,
  nothing is emitted to a room, and Alice gets the acknowledgement, not an error.
\<close>

theorem scenario_direct_message_offline:
  "\<not> isOnline (connection calm ''s1'' alice empty_server) ''u2''
   \<and> actions_of (connection calm ''s1'' alice empty_server)
        (direct_message calm ''s1'' alice (Some ''u2'') (Some ''hi'')
           (connection calm ''s1'' alice empty_server))
       = [SavedMessage \<lparr>msg_id = 100, sender = ''u1'', recipient = Some ''u2'',
            msg_group = None, content = ''hi'', read = False, msg_createdAt = 1\<rparr>,
          Emit (ToSocket ''s1'') (MessageSent 100) [''s1'']]"
  by (simp add: connection_def joinUserGroups_def direct_message_def store_defs io_defs
      actions_of_def isOnline_def isMember_def example_defs Let_def)

end
